theory Spec2Isabelle
  imports Complex_Main
begin

section \<open>JSON values and Python errors\<close>

text \<open>
  The draft descriptors are the values \<^verbatim>\<open>json.load\<close> produces. A Python dict compares
  equal to another dict when both hold the same keys with equal values, whatever the order
  of insertion, so an object is a map from keys to values and HOL equality on \<open>json\<close> is
  Python's \<^verbatim>\<open>==\<close> on descriptors. \<^verbatim>\<open>deepcopy\<close> is the identity on such values.
\<close>

datatype json =
    JNull
  | JBool bool
  | JInt int
  | JFloat real \<comment> \<open>a finite float, as the number it denotes\<close>
  | JStr string
  | JList "json list"
  | JObj "string \<Rightarrow> json option"

datatype Shrink_mode = cut_head | cut_tail | cut_tail_align | shrink
  | unsupported_shrink \<comment> \<open>any value that is not a member of the enum\<close>

datatype Extend_mode = extend_head | extend_tail | push_tail
  | unsupported_extend \<comment> \<open>any value that is not a member of the enum\<close>

datatype error =
    IndexError
  | KeyError string
  | TypeError
  | ValueError
  | Unsupported_shrink_mode Shrink_mode
      \<comment> \<open>\<^verbatim>\<open>ValueError(f"Unsupported shrink mode: {shrink}")\<close>\<close>
  | Unsupported_extend_mode Extend_mode
      \<comment> \<open>\<^verbatim>\<open>ValueError(f"Unsupported extend mode: {mode}")\<close>\<close>
  | ExtensionFailed int "Extend_mode list"
      \<comment> \<open>the message's two interpolated values: \<^verbatim>\<open>new_duration\<close> and \<^verbatim>\<open>extend\<close>\<close>

section \<open>Timerange and Imported\_segment\<close>

record Timerange =
  start :: int
  duration :: int

text \<open>
  Modelled from the spec: the property \<^verbatim>\<open>Timerange.end\<close> of \<^verbatim>\<open>time_util.py\<close>, which is
  not among the sources (the class \<^verbatim>\<open>Timerange\<close> of \<^verbatim>\<open>Jianying_json.py\<close> has the two
  fields and \<^verbatim>\<open>export_json\<close> only). The spec: derived \<^verbatim>\<open>end = start + duration\<close>.
\<close>

definition Timerange_end :: "Timerange \<Rightarrow> int" where
  "Timerange_end tr = start tr + duration tr"

text \<open>\<^verbatim>\<open>Timerange.export_json\<close>: \<^verbatim>\<open>{"start": self.start, "duration": self.duration}\<close>.\<close>

definition Timerange_export_json :: "Timerange \<Rightarrow> json" where
  "Timerange_export_json tr =
     JObj [''start'' \<mapsto> JInt (start tr), ''duration'' \<mapsto> JInt (duration tr)]"

record Imported_segment =
  raw_data :: "string \<Rightarrow> json option"
  material_id :: string
  source_timerange :: Timerange
  target_timerange :: Timerange

text \<open>The properties \<^verbatim>\<open>start\<close>, \<^verbatim>\<open>duration\<close>, \<^verbatim>\<open>end\<close> of a segment and the two setters.\<close>

definition seg_start :: "Imported_segment \<Rightarrow> int" where
  "seg_start seg = start (target_timerange seg)"

definition seg_duration :: "Imported_segment \<Rightarrow> int" where
  "seg_duration seg = duration (target_timerange seg)"

definition seg_end :: "Imported_segment \<Rightarrow> int" where
  "seg_end seg = Timerange_end (target_timerange seg)"

definition set_start :: "int \<Rightarrow> Imported_segment \<Rightarrow> Imported_segment" where
  "set_start v seg = seg\<lparr>target_timerange := (target_timerange seg)\<lparr>start := v\<rparr>\<rparr>"

definition set_duration :: "int \<Rightarrow> Imported_segment \<Rightarrow> Imported_segment" where
  "set_duration v seg = seg\<lparr>target_timerange := (target_timerange seg)\<lparr>duration := v\<rparr>\<rparr>"

section \<open>Python list indexing\<close>

text \<open>
  \<^verbatim>\<open>xs[i]\<close> accepts \<open>- len \<le> i < len\<close>, a negative index counting from the end, and
  raises IndexError elsewhere. \<open>py_pos\<close> is the position an accepted index denotes.
\<close>

definition py_pos :: "nat \<Rightarrow> int \<Rightarrow> nat" where
  "py_pos n i = nat (if i < 0 then int n + i else i)"

definition resolve :: "'a list \<Rightarrow> int \<Rightarrow> nat option" where
  "resolve xs i =
     (if - int (length xs) \<le> i \<and> i < int (length xs) then Some (py_pos (length xs) i)
      else None)"

section \<open>Imported\_track.process\_timerange\<close>

text \<open>
  The method reads and writes \<^verbatim>\<open>self.segments\<close> only, so \<^verbatim>\<open>self\<close> is the list of the
  track's segments. The segment objects of the list are distinct objects, and the variable
  \<^verbatim>\<open>seg\<close> is the one at position \<open>k\<close>: every assignment through \<^verbatim>\<open>seg\<close> or through
  \<^verbatim>\<open>self.segments[i]\<close> is an update of the list at the position the index denotes.

  The result is the exception raised, if any, with the segments as the call leaves them.
\<close>

text \<open>
  \<^verbatim>\<open>for i in range(seg_index+1, len(self.segments)): self.segments[i].start += d\<close>.
  The indices of the range lie in \<open>- len < i < len\<close> whenever \<^verbatim>\<open>seg_index\<close> itself was
  accepted, so the indexing in the loop body cannot raise (lemma \<open>range_resolves\<close>).
\<close>

fun shift_starts :: "int list \<Rightarrow> int \<Rightarrow> Imported_segment list \<Rightarrow> Imported_segment list" where
  "shift_starts [] d segments = segments"
| "shift_starts (i # rest) d segments =
     (let p = py_pos (length segments) i
      in shift_starts rest d
           (segments[p := set_start (seg_start (segments ! p) + d) (segments ! p)]))"

definition following :: "int \<Rightarrow> Imported_segment list \<Rightarrow> int list" where
  "following seg_index segments = [seg_index + 1 .. int (length segments) - 1]"

text \<open>
  The loop \<^verbatim>\<open>for mode in extend\<close>. A mode that does not succeed assigns nothing, so the
  next iteration starts from the same segments with \<^verbatim>\<open>success_flag\<close> still False; the
  first success breaks. The result is \<open>Inr success_flag\<close> at the end of the loop, or the
  ValueError of an unsupported mode.
\<close>

fun extend_loop ::
  "Imported_segment list \<Rightarrow> int \<Rightarrow> nat \<Rightarrow> int \<Rightarrow> int \<Rightarrow> int \<Rightarrow> Extend_mode list
     \<Rightarrow> (error + bool) \<times> Imported_segment list" where
  "extend_loop segments seg_index k delta_duration prev_seg_end next_seg_start [] =
     (Inr False, segments)"
| "extend_loop segments seg_index k delta_duration prev_seg_end next_seg_start (mode # rest) =
     (let seg = segments ! k in
      case mode of
        extend_head \<Rightarrow>
          if seg_start seg - delta_duration \<ge> prev_seg_end
          then (Inr True, segments[k := set_start (seg_start seg - delta_duration) seg])
          else extend_loop segments seg_index k delta_duration prev_seg_end next_seg_start rest
      | extend_tail \<Rightarrow>
          if seg_end seg + delta_duration \<le> next_seg_start
          then (Inr True, segments[k := set_duration (seg_duration seg + delta_duration) seg])
          else extend_loop segments seg_index k delta_duration prev_seg_end next_seg_start rest
      | push_tail \<Rightarrow>
          (let shift_duration = max 0 (seg_end seg + delta_duration - next_seg_start);
               segments1 = segments[k := set_duration (seg_duration seg + delta_duration) seg]
           in (Inr True,
               if shift_duration > 0
               then shift_starts (following seg_index segments1) shift_duration segments1
               else segments1))
      | unsupported_extend \<Rightarrow> (Inl (Unsupported_extend_mode mode), segments))"

text \<open>
  \<^verbatim>\<open>prev_seg_end\<close> and \<^verbatim>\<open>next_seg_start\<close>, computed before the loop; each indexes the
  list and so may raise IndexError (\<open>None\<close>). \<^verbatim>\<open>int(1e15)\<close> is \<open>10 ^ 15\<close>.
\<close>

definition prev_seg_end_of :: "Imported_segment list \<Rightarrow> int \<Rightarrow> int option" where
  "prev_seg_end_of segments seg_index =
     (if seg_index = 0 then Some 0
      else map_option (\<lambda>p. seg_end (segments ! p)) (resolve segments (seg_index - 1)))"

definition next_seg_start_of :: "Imported_segment list \<Rightarrow> int \<Rightarrow> int option" where
  "next_seg_start_of segments seg_index =
     (if seg_index = int (length segments) - 1 then Some 1000000000000000
      else map_option (\<lambda>p. seg_start (segments ! p)) (resolve segments (seg_index + 1)))"

text \<open>
  After the loop: \<^verbatim>\<open>if not success_flag: raise ExtensionFailed(...)\<close>, the message naming
  \<^verbatim>\<open>new_duration\<close> and the whole list \<^verbatim>\<open>extend\<close>.
\<close>

definition after_loop ::
  "int \<Rightarrow> Extend_mode list \<Rightarrow> (error + bool) \<times> Imported_segment list
     \<Rightarrow> error option \<times> Imported_segment list" where
  "after_loop new_duration extend_modes r =
     (case r of
        (Inl e, segments') \<Rightarrow> (Some e, segments')
      | (Inr True, segments') \<Rightarrow> (None, segments')
      | (Inr False, segments') \<Rightarrow>
          (Some (ExtensionFailed new_duration extend_modes), segments'))"

definition process_timerange ::
  "Imported_segment list \<Rightarrow> int \<Rightarrow> int \<Rightarrow> Shrink_mode \<Rightarrow> Extend_mode list
     \<Rightarrow> error option \<times> Imported_segment list" where
  "process_timerange segments seg_index new_duration shrink_mode extend_modes =
     (case resolve segments seg_index of
        None \<Rightarrow> (Some IndexError, segments)
      | Some k \<Rightarrow>
          (let seg = segments ! k;
               delta_duration = \<bar>new_duration - seg_duration seg\<bar>
           in
           if new_duration < seg_duration seg then
             (case shrink_mode of
                cut_head \<Rightarrow>
                  (None, segments[k := set_start (seg_start seg + delta_duration) seg])
              | cut_tail \<Rightarrow>
                  (None, segments[k := set_duration (seg_duration seg - delta_duration) seg])
              | cut_tail_align \<Rightarrow>
                  (let segments1 =
                         segments[k := set_duration (seg_duration seg - delta_duration) seg]
                   in (None,
                       shift_starts (following seg_index segments1) (- delta_duration)
                         segments1))
              | shrink \<Rightarrow>
                  (let seg1 = set_duration (seg_duration seg - delta_duration) seg
                   in (None,
                       segments[k := set_start (seg_start seg1 + delta_duration div 2) seg1]))
              | unsupported_shrink \<Rightarrow> (Some (Unsupported_shrink_mode shrink_mode), segments))
           else if new_duration > seg_duration seg then
             (case prev_seg_end_of segments seg_index of
                None \<Rightarrow> (Some IndexError, segments)
              | Some prev_seg_end \<Rightarrow>
                  (case next_seg_start_of segments seg_index of
                     None \<Rightarrow> (Some IndexError, segments)
                   | Some next_seg_start \<Rightarrow>
                       after_loop new_duration extend_modes
                         (extend_loop segments seg_index k delta_duration
                            prev_seg_end next_seg_start extend_modes)))
           else (None, segments)))"


section \<open>Loading and exporting segments\<close>

text \<open>
  Modelled from the spec: \<^verbatim>\<open>Timerange.import_json\<close> of \<^verbatim>\<open>time_util.py\<close>, which is not among
  the sources. The spec gives a timerange of a segment descriptor as an object with
  \<^verbatim>\<open>start\<close> and \<^verbatim>\<open>duration\<close>, both integers; the two keys are looked up, a missing key
  is a KeyError and a value that is not an integer a TypeError.
\<close>

definition Timerange_import_json :: "json \<Rightarrow> error + Timerange" where
  "Timerange_import_json json_obj =
     (case json_obj of
        JObj m \<Rightarrow>
          (case m ''start'' of
             None \<Rightarrow> Inl (KeyError ''start'')
           | Some (JInt s) \<Rightarrow>
               (case m ''duration'' of
                  None \<Rightarrow> Inl (KeyError ''duration'')
                | Some (JInt d) \<Rightarrow> Inr \<lparr>start = s, duration = d\<rparr>
                | Some _ \<Rightarrow> Inl TypeError)
           | Some _ \<Rightarrow> Inl TypeError)
      | _ \<Rightarrow> Inl TypeError)"

text \<open>
  Modelled from the spec: \<^verbatim>\<open>util.assign_attr_with_json\<close> and \<^verbatim>\<open>util.export_attr_to_json\<close>
  of \<^verbatim>\<open>util.py\<close>, which is not among the sources, at the attribute list
  \<^verbatim>\<open>["material_id", "source_timerange", "target_timerange"]\<close> of \<^verbatim>\<open>Imported_segment\<close>.
  The spec: the typed fields are \<^verbatim>\<open>material_id\<close> (a string) and the two timeranges, stored
  alongside the original payload and re-merged into it at emit time.
\<close>

definition assign_attr_with_json ::
  "(string \<Rightarrow> json option) \<Rightarrow> error + (string \<times> Timerange \<times> Timerange)" where
  "assign_attr_with_json json_data =
     (case json_data ''material_id'' of
        None \<Rightarrow> Inl (KeyError ''material_id'')
      | Some (JStr mid) \<Rightarrow>
          (case json_data ''source_timerange'' of
             None \<Rightarrow> Inl (KeyError ''source_timerange'')
           | Some sj \<Rightarrow>
               (case Timerange_import_json sj of
                  Inl e \<Rightarrow> Inl e
                | Inr src \<Rightarrow>
                    (case json_data ''target_timerange'' of
                       None \<Rightarrow> Inl (KeyError ''target_timerange'')
                     | Some tj \<Rightarrow>
                         (case Timerange_import_json tj of
                            Inl e \<Rightarrow> Inl e
                          | Inr tgt \<Rightarrow> Inr (mid, src, tgt)))))
      | Some _ \<Rightarrow> Inl TypeError)"

definition export_attr_to_json :: "Imported_segment \<Rightarrow> (string \<Rightarrow> json option)" where
  "export_attr_to_json seg =
     [''material_id'' \<mapsto> JStr (material_id seg),
      ''source_timerange'' \<mapsto> Timerange_export_json (source_timerange seg),
      ''target_timerange'' \<mapsto> Timerange_export_json (target_timerange seg)]"

text \<open>
  \<^verbatim>\<open>Imported_segment.__init__\<close>: the payload is kept (a copy of it) and the typed fields
  are assigned from it. A descriptor that is not a dict cannot be indexed by a key.
\<close>

definition Imported_segment_init :: "json \<Rightarrow> error + Imported_segment" where
  "Imported_segment_init json_data =
     (case json_data of
        JObj m \<Rightarrow>
          (case assign_attr_with_json m of
             Inl e \<Rightarrow> Inl e
           | Inr (mid, src, tgt) \<Rightarrow>
               Inr \<lparr>raw_data = m, material_id = mid,
                    source_timerange = src, target_timerange = tgt\<rparr>)
      | _ \<Rightarrow> Inl TypeError)"

text \<open>\<^verbatim>\<open>Imported_segment.export_json\<close>: \<^verbatim>\<open>dict.update\<close> overrides the payload's keys.\<close>

definition Imported_segment_export_json :: "Imported_segment \<Rightarrow> json" where
  "Imported_segment_export_json seg = JObj (raw_data seg ++ export_attr_to_json seg)"

section \<open>Tracks\<close>

text \<open>
  Python's \<^verbatim>\<open>int(x)\<close> on a JSON value. The parsing of a \<^verbatim>\<open>str\<close> by the builtin is the
  parameter \<open>int_of_str\<close> (\<open>None\<close> where the builtin raises ValueError); a float is
  truncated towards zero.
\<close>

definition py_int :: "(string \<Rightarrow> int option) \<Rightarrow> json \<Rightarrow> error + int" where
  "py_int int_of_str v =
     (case v of
        JInt n \<Rightarrow> Inr n
      | JBool b \<Rightarrow> Inr (if b then 1 else 0)
      | JFloat x \<Rightarrow> Inr (if 0 \<le> x then \<lfloor>x\<rfloor> else \<lceil>x\<rceil>)
      | JStr s \<Rightarrow> (case int_of_str s of None \<Rightarrow> Inl ValueError | Some n \<Rightarrow> Inr n)
      | _ \<Rightarrow> Inl TypeError)"

text \<open>\<^verbatim>\<open>[int(seg["render_index"]) for seg in segments]\<close>, the first failure ending it.\<close>

fun render_indices :: "(string \<Rightarrow> int option) \<Rightarrow> json list \<Rightarrow> error + int list" where
  "render_indices int_of_str [] = Inr []"
| "render_indices int_of_str (seg # rest) =
     (case seg of
        JObj m \<Rightarrow>
          (case m ''render_index'' of
             None \<Rightarrow> Inl (KeyError ''render_index'')
           | Some v \<Rightarrow>
               (case py_int int_of_str v of
                  Inl e \<Rightarrow> Inl e
                | Inr n \<Rightarrow>
                    (case render_indices int_of_str rest of
                       Inl e \<Rightarrow> Inl e
                     | Inr ns \<Rightarrow> Inr (n # ns))))
      | _ \<Rightarrow> Inl TypeError)"

text \<open>\<^verbatim>\<open>max\<close> of a list: ValueError on the empty list.\<close>

definition py_max :: "int list \<Rightarrow> error + int" where
  "py_max xs = (case xs of [] \<Rightarrow> Inl ValueError | x # rest \<Rightarrow> Inr (fold max rest x))"

text \<open>\<^verbatim>\<open>[Imported_segment(seg) for seg in segments]\<close>.\<close>

fun import_segments :: "json list \<Rightarrow> error + Imported_segment list" where
  "import_segments [] = Inr []"
| "import_segments (seg # rest) =
     (case Imported_segment_init seg of
        Inl e \<Rightarrow> Inl e
      | Inr s \<Rightarrow>
          (case import_segments rest of
             Inl e \<Rightarrow> Inl e
           | Inr ss \<Rightarrow> Inr (s # ss)))"

text \<open>
  \<^verbatim>\<open>Base_track\<close> and \<^verbatim>\<open>Track_type\<close> belong to \<^verbatim>\<open>track.py\<close>, which is not among the sources:
  the type of track kinds is the parameter \<open>'tt\<close> and \<^verbatim>\<open>Track_type.from_name\<close> the
  parameter \<open>from_name\<close> of the two constructors below.
\<close>

record 'tt Base_track =
  track_type :: 'tt
  name :: json
  track_id :: json
  render_index :: int

record 'tt Static_track = "'tt Base_track" +
  static_raw_data :: "string \<Rightarrow> json option"

record 'tt Imported_track = "'tt Base_track" +
  track_raw_data :: "string \<Rightarrow> json option"
  segments :: "Imported_segment list"

text \<open>
  The part the two constructors share: \<^verbatim>\<open>type\<close>, \<^verbatim>\<open>name\<close>, \<^verbatim>\<open>id\<close>, then the maximum of
  the segments' render indices. A \<^verbatim>\<open>segments\<close> value that is not a list raises as well:
  iterating a str or a dict gives strs, which cannot be indexed by \<^verbatim>\<open>"render_index"\<close>
  (TypeError), and an empty one gives the empty list, on which \<^verbatim>\<open>max\<close> raises ValueError;
  any other value cannot be iterated (TypeError).
\<close>

definition track_header ::
  "(json \<Rightarrow> error + 'tt) \<Rightarrow> (string \<Rightarrow> int option) \<Rightarrow> (string \<Rightarrow> json option)
     \<Rightarrow> error + ('tt \<times> json \<times> json \<times> int \<times> json list)" where
  "track_header from_name int_of_str json_data =
     (case json_data ''type'' of
        None \<Rightarrow> Inl (KeyError ''type'')
      | Some ty \<Rightarrow>
     (case from_name ty of
        Inl e \<Rightarrow> Inl e
      | Inr tt \<Rightarrow>
     (case json_data ''name'' of
        None \<Rightarrow> Inl (KeyError ''name'')
      | Some nm \<Rightarrow>
     (case json_data ''id'' of
        None \<Rightarrow> Inl (KeyError ''id'')
      | Some tid \<Rightarrow>
     (case json_data ''segments'' of
        None \<Rightarrow> Inl (KeyError ''segments'')
      | Some (JList segs) \<Rightarrow>
          (case render_indices int_of_str segs of
             Inl e \<Rightarrow> Inl e
           | Inr ris \<Rightarrow>
               (case py_max ris of
                  Inl e \<Rightarrow> Inl e
                | Inr ri \<Rightarrow> Inr (tt, nm, tid, ri, segs)))
      | Some (JStr s) \<Rightarrow> Inl (if s = [] then ValueError else TypeError)
      | Some (JObj sm) \<Rightarrow> Inl (if sm = Map.empty then ValueError else TypeError)
      | Some _ \<Rightarrow> Inl TypeError)))))"

definition Static_track_init ::
  "(json \<Rightarrow> error + 'tt) \<Rightarrow> (string \<Rightarrow> int option) \<Rightarrow> json \<Rightarrow> error + 'tt Static_track" where
  "Static_track_init from_name int_of_str json_data =
     (case json_data of
        JObj m \<Rightarrow>
          (case track_header from_name int_of_str m of
             Inl e \<Rightarrow> Inl e
           | Inr (tt, nm, tid, ri, segs) \<Rightarrow>
               Inr \<lparr>track_type = tt, name = nm, track_id = tid, render_index = ri,
                    static_raw_data = m\<rparr>)
      | _ \<Rightarrow> Inl TypeError)"

definition Static_track_export_json :: "'tt Static_track \<Rightarrow> json" where
  "Static_track_export_json self = JObj (static_raw_data self)"

definition Imported_track_init ::
  "(json \<Rightarrow> error + 'tt) \<Rightarrow> (string \<Rightarrow> int option) \<Rightarrow> json \<Rightarrow> error + 'tt Imported_track" where
  "Imported_track_init from_name int_of_str json_data =
     (case json_data of
        JObj m \<Rightarrow>
          (case track_header from_name int_of_str m of
             Inl e \<Rightarrow> Inl e
           | Inr (tt, nm, tid, ri, segs) \<Rightarrow>
               (case import_segments segs of
                  Inl e \<Rightarrow> Inl e
                | Inr ss \<Rightarrow>
                    Inr \<lparr>track_type = tt, name = nm, track_id = tid, render_index = ri,
                         track_raw_data = m, segments = ss\<rparr>))
      | _ \<Rightarrow> Inl TypeError)"

definition start_time :: "'tt Imported_track \<Rightarrow> int" where
  "start_time self =
     (if length (segments self) = 0 then 0
      else start (target_timerange (segments self ! 0)))"

definition end_time :: "'tt Imported_track \<Rightarrow> int" where
  "end_time self =
     (if length (segments self) = 0 then 0
      else Timerange_end (target_timerange (last (segments self))))"

text \<open>
  \<^verbatim>\<open>Imported_track.export_json\<close> stores the exported segments into \<^verbatim>\<open>self.raw_data\<close> and
  returns that dict: the result is the value returned with the track as the call leaves it.
\<close>

definition Imported_track_export_json :: "'tt Imported_track \<Rightarrow> json \<times> 'tt Imported_track" where
  "Imported_track_export_json self =
     (let raw = (track_raw_data self)
                  (''segments'' \<mapsto> JList (map Imported_segment_export_json (segments self)))
      in (JObj raw, self\<lparr>track_raw_data := raw\<rparr>))"

section \<open>Notions the properties are stated with\<close>

text \<open>A segment as the constructor leaves it for a payload of the three typed fields.\<close>

definition plain_segment :: "string \<Rightarrow> Timerange \<Rightarrow> Timerange \<Rightarrow> Imported_segment" where
  "plain_segment mid src tgt =
     \<lparr>raw_data = [''material_id'' \<mapsto> JStr mid,
                   ''source_timerange'' \<mapsto> Timerange_export_json src,
                   ''target_timerange'' \<mapsto> Timerange_export_json tgt],
      material_id = mid, source_timerange = src, target_timerange = tgt\<rparr>"

text \<open>Two tracks the properties are tried on.\<close>

definition single_track :: "Imported_segment list" where
  "single_track =
     [plain_segment ''a'' \<lparr>start = 0, duration = 5000\<rparr> \<lparr>start = 1000, duration = 5000\<rparr>]"

definition abutting_track :: "Imported_segment list" where
  "abutting_track =
     [plain_segment ''a'' \<lparr>start = 0, duration = 1000\<rparr> \<lparr>start = 0, duration = 1000\<rparr>,
      plain_segment ''b'' \<lparr>start = 0, duration = 1000\<rparr> \<lparr>start = 1000, duration = 1000\<rparr>,
      plain_segment ''c'' \<lparr>start = 0, duration = 1000\<rparr> \<lparr>start = 2000, duration = 1000\<rparr>]"

text \<open>
  A track descriptor of one segment, with fields beyond the typed ones, the descriptor of a
  track without segments, and the objects the first one loads to (the track type read by the
  identity).
\<close>

definition demo_segment_fields :: "string \<Rightarrow> json option" where
  "demo_segment_fields =
     [''material_id'' \<mapsto> JStr ''a'',
      ''source_timerange'' \<mapsto> JObj [''duration'' \<mapsto> JInt 5000, ''start'' \<mapsto> JInt 0],
      ''target_timerange'' \<mapsto> JObj [''duration'' \<mapsto> JInt 5000, ''start'' \<mapsto> JInt 1000],
      ''render_index'' \<mapsto> JInt 3,
      ''speed'' \<mapsto> JFloat 1,
      ''extra_material_refs'' \<mapsto> JList [JStr ''x'', JNull]]"

definition demo_track_fields :: "string \<Rightarrow> json option" where
  "demo_track_fields =
     [''type'' \<mapsto> JStr ''video'', ''name'' \<mapsto> JStr ''main'', ''id'' \<mapsto> JStr ''t1'',
      ''segments'' \<mapsto> JList [JObj demo_segment_fields],
      ''flag'' \<mapsto> JInt 0]"

definition empty_track_fields :: "string \<Rightarrow> json option" where
  "empty_track_fields =
     [''type'' \<mapsto> JStr ''video'', ''name'' \<mapsto> JStr ''main'', ''id'' \<mapsto> JStr ''t1'',
      ''segments'' \<mapsto> JList []]"

definition demo_segment :: Imported_segment where
  "demo_segment =
     \<lparr>raw_data = demo_segment_fields, material_id = ''a'',
      source_timerange = \<lparr>start = 0, duration = 5000\<rparr>,
      target_timerange = \<lparr>start = 1000, duration = 5000\<rparr>\<rparr>"

definition demo_track :: "json Imported_track" where
  "demo_track =
     \<lparr>track_type = JStr ''video'', name = JStr ''main'', track_id = JStr ''t1'',
      render_index = 3, track_raw_data = demo_track_fields, segments = [demo_segment]\<rparr>"

definition demo_static_track :: "json Static_track" where
  "demo_static_track =
     \<lparr>track_type = JStr ''video'', name = JStr ''main'', track_id = JStr ''t1'',
      render_index = 3, static_raw_data = demo_track_fields\<rparr>"

text \<open>
  A descriptor whose source timerange holds a key besides \<^verbatim>\<open>start\<close> and \<^verbatim>\<open>duration\<close>, and
  the track it loads to.
\<close>

definition extra_key_segment_fields :: "string \<Rightarrow> json option" where
  "extra_key_segment_fields =
     [''material_id'' \<mapsto> JStr ''a'',
      ''source_timerange'' \<mapsto>
         JObj [''duration'' \<mapsto> JInt 5000, ''start'' \<mapsto> JInt 0, ''unit'' \<mapsto> JStr ''us''],
      ''target_timerange'' \<mapsto> JObj [''duration'' \<mapsto> JInt 5000, ''start'' \<mapsto> JInt 1000],
      ''render_index'' \<mapsto> JInt 0]"

definition extra_key_track_fields :: "string \<Rightarrow> json option" where
  "extra_key_track_fields =
     [''type'' \<mapsto> JStr ''video'', ''name'' \<mapsto> JStr ''main'', ''id'' \<mapsto> JStr ''t1'',
      ''segments'' \<mapsto> JList [JObj extra_key_segment_fields]]"

definition extra_key_track :: "json Imported_track" where
  "extra_key_track =
     \<lparr>track_type = JStr ''video'', name = JStr ''main'', track_id = JStr ''t1'',
      render_index = 0, track_raw_data = extra_key_track_fields,
      segments =
        [\<lparr>raw_data = extra_key_segment_fields, material_id = ''a'',
          source_timerange = \<lparr>start = 0, duration = 5000\<rparr>,
          target_timerange = \<lparr>start = 1000, duration = 5000\<rparr>\<rparr>]\<rparr>"

text \<open>The midpoint of a timerange, in microseconds: \<open>start + duration / 2\<close>.\<close>

definition midpoint :: "Timerange \<Rightarrow> real" where
  "midpoint tr = real_of_int (start tr) + real_of_int (duration tr) / 2"

text \<open>
  The shape the spec gives a timerange of a descriptor: an object of exactly the keys
  \<^verbatim>\<open>start\<close> and \<^verbatim>\<open>duration\<close>, both integers; and a segment descriptor whose typed fields
  have their shapes, whatever other keys it holds.
\<close>

definition timerange_shaped :: "json \<Rightarrow> bool" where
  "timerange_shaped j =
     (case j of
        JObj m \<Rightarrow>
          dom m = {''start'', ''duration''} \<and>
          (case m ''start'' of Some (JInt s) \<Rightarrow> True | _ \<Rightarrow> False) \<and>
          (case m ''duration'' of Some (JInt d) \<Rightarrow> True | _ \<Rightarrow> False)
      | _ \<Rightarrow> False)"

definition segment_shaped :: "json \<Rightarrow> bool" where
  "segment_shaped j =
     (case j of
        JObj m \<Rightarrow>
          (case m ''material_id'' of Some (JStr mid) \<Rightarrow> True | _ \<Rightarrow> False) \<and>
          (case m ''source_timerange'' of Some t \<Rightarrow> timerange_shaped t | None \<Rightarrow> False) \<and>
          (case m ''target_timerange'' of Some t \<Rightarrow> timerange_shaped t | None \<Rightarrow> False)
      | _ \<Rightarrow> False)"

definition track_shaped :: "json \<Rightarrow> bool" where
  "track_shaped j =
     (case j of
        JObj m \<Rightarrow>
          (case m ''segments'' of
             Some (JList segs) \<Rightarrow> list_all segment_shaped segs
           | _ \<Rightarrow> False)
      | _ \<Rightarrow> False)"


section \<open>Facts about indexing and the loop over the following segments\<close>

lemma resolve_nonneg: "0 \<le> i \<Longrightarrow> i < int (length xs) \<Longrightarrow> resolve xs i = Some (nat i)"
  by (simp add: resolve_def py_pos_def)

lemma range_resolves:
  "resolve segs seg_index = Some k \<Longrightarrow> j \<in> set (following seg_index segs) \<Longrightarrow>
   resolve segs j = Some (py_pos (length segs) j)"
  by (auto simp: resolve_def following_def split: if_splits)

lemma length_shift_starts [simp]: "length (shift_starts is d segs) = length segs"
  by (induction "is" arbitrary: segs) (simp_all add: Let_def)

lemma shift_starts_nth:
  "\<forall>i \<in> set is. 0 \<le> i \<and> i < int (length segs) \<Longrightarrow> distinct is \<Longrightarrow> k < length segs \<Longrightarrow>
   shift_starts is d segs ! k =
     (if int k \<in> set is then set_start (seg_start (segs ! k) + d) (segs ! k) else segs ! k)"
proof (induction "is" arbitrary: segs)
  case Nil
  then show ?case by simp
next
  case (Cons i rest)
  let ?p = "py_pos (length segs) i"
  let ?segs1 = "segs[?p := set_start (seg_start (segs ! ?p) + d) (segs ! ?p)]"
  from Cons.prems have i: "0 \<le> i" "i < int (length segs)" by simp_all
  then have p: "?p = nat i" by (simp add: py_pos_def)
  have IH: "shift_starts rest d ?segs1 ! k =
     (if int k \<in> set rest then set_start (seg_start (?segs1 ! k) + d) (?segs1 ! k) else ?segs1 ! k)"
    using Cons.prems by (intro Cons.IH) simp_all
  show ?case
  proof (cases "int k = i")
    case True
    then have "int k \<notin> set rest" and "nat i = k" using Cons.prems(2) by auto
    with IH True p Cons.prems(3) show ?thesis by (simp add: Let_def)
  next
    case False
    then have "nat i \<noteq> k" using i by auto
    with IH False p show ?thesis by (simp add: Let_def)
  qed
qed

lemma following_set: "0 \<le> i \<Longrightarrow> set (following i segs) = {j. i < j \<and> j < int (length segs)}"
  by (auto simp: following_def)

lemma following_nth:
  assumes "0 \<le> i" "k < length segs" "length segs0 = length segs"
  shows "shift_starts (following i segs0) d segs ! k =
     (if i < int k then set_start (seg_start (segs ! k) + d) (segs ! k) else segs ! k)"
proof -
  have f: "following i segs0 = following i segs"
    using assms(3) by (simp add: following_def)
  have "shift_starts (following i segs) d segs ! k =
     (if int k \<in> set (following i segs) then set_start (seg_start (segs ! k) + d) (segs ! k) else segs ! k)"
    using assms by (intro shift_starts_nth) (auto simp: following_def)
  then show ?thesis using assms by (simp add: following_set f)
qed

lemma map_update_same: "f y = f (xs ! p) \<Longrightarrow> map f (xs[p := y]) = map f xs"
  by (cases "p < length xs") (simp_all add: map_update list_update_same_conv list_update_beyond)

lemma shift_starts_frame:
  assumes "\<And>v s. f (set_start v s) = f s"
  shows "map f (shift_starts is d segs) = map f segs"
  using assms by (induction "is" arbitrary: segs) (simp_all add: Let_def map_update_same)


lemmas seg_defs = seg_start_def seg_duration_def seg_end_def Timerange_end_def
  set_start_def set_duration_def

lemma seg_set_simps:
  "seg_start (set_start v s) = v"
  "seg_duration (set_start v s) = seg_duration s"
  "seg_end (set_start v s) = v + seg_duration s"
  "seg_start (set_duration v s) = seg_start s"
  "seg_duration (set_duration v s) = v"
  "seg_end (set_duration v s) = seg_start s + v"
  "source_timerange (set_start v s) = source_timerange s"
  "source_timerange (set_duration v s) = source_timerange s"
  by (simp_all add: seg_defs)

lemma seg_end_eq: "seg_end s = seg_start s + seg_duration s"
  by (simp add: seg_defs)

lemma shrink_regime:
  assumes "0 \<le> i" "i < int (length segs)" "nd < seg_duration (segs ! nat i)"
  shows "process_timerange segs i nd sh ex =
    (let k = nat i; seg = segs ! k; delta = seg_duration seg - nd in
     case sh of
       cut_head \<Rightarrow> (None, segs[k := set_start (seg_start seg + delta) seg])
     | cut_tail \<Rightarrow> (None, segs[k := set_duration nd seg])
     | cut_tail_align \<Rightarrow>
         (None, shift_starts (following i segs) (- delta) (segs[k := set_duration nd seg]))
     | shrink \<Rightarrow> (None, segs[k := set_start (seg_start seg + delta div 2) (set_duration nd seg)])
     | unsupported_shrink \<Rightarrow> (Some (Unsupported_shrink_mode sh), segs))"
  using assms
  by (simp add: process_timerange_def resolve_nonneg Let_def following_def seg_set_simps
           split: Shrink_mode.split)

text \<open>
  Claim C1: for a valid index and a new duration below the current one, each of the four
  shrink policies returns and leaves the target duration equal to the new duration, the end
  being kept under \<^verbatim>\<open>cut_head\<close>. The branch for \<^verbatim>\<open>cut_head\<close> assigns the start only: on the
  segment \<open>{start: 1000, duration: 5000}\<close> shrunk to 3000 the call returns with the start
  moved to 3000, the duration still 5000 and the end moved from 6000 to 8000.
\<close>

theorem cut_head_keeps_duration:
  "(let segs = [plain_segment ''m'' \<lparr>start = 0, duration = 5000\<rparr> \<lparr>start = 1000, duration = 5000\<rparr>];
        r = process_timerange segs 0 3000 cut_head []
    in seg_end (segs ! 0) = 6000 \<and> fst r = None \<and> seg_start (snd r ! 0) = 3000 \<and>
       seg_duration (snd r ! 0) = 5000 \<and> seg_end (snd r ! 0) = 8000)"
  by (simp add: process_timerange_def resolve_def py_pos_def plain_segment_def seg_defs)

text \<open>The three other shrink policies do leave the requested duration.\<close>

lemma shrink_sets_duration:
  assumes "0 \<le> i" "i < int (length segs)" "nd < seg_duration (segs ! nat i)"
    and "sh = cut_tail \<or> sh = cut_tail_align \<or> sh = shrink"
  shows "fst (process_timerange segs i nd sh ex) = None"
    and "seg_duration (snd (process_timerange segs i nd sh ex) ! nat i) = nd"
  using assms
  by (auto simp: shrink_regime Let_def following_nth seg_set_simps)

text \<open>
  Claim C5: under \<^verbatim>\<open>cut_tail_align\<close> the addressed segment keeps its start and takes the
  new duration, every following segment's start decreases by exactly \<open>delta\<close> (its duration
  kept), the preceding segments are untouched, and the gap to the successor is what it was.
\<close>

theorem cut_tail_align_shifts_followers:
  assumes "0 \<le> i" and "i < int (length segs)" and "nd < seg_duration (segs ! nat i)"
  shows "(let r = process_timerange segs i nd cut_tail_align ex; segs' = snd r;
              k = nat i; delta = seg_duration (segs ! k) - nd
          in fst r = None \<and> length segs' = length segs \<and>
             seg_start (segs' ! k) = seg_start (segs ! k) \<and>
             seg_duration (segs' ! k) = nd \<and>
             (\<forall>j < length segs. k < j \<longrightarrow>
                seg_start (segs' ! j) = seg_start (segs ! j) - delta \<and>
                seg_duration (segs' ! j) = seg_duration (segs ! j)) \<and>
             (\<forall>j < k. segs' ! j = segs ! j) \<and>
             (Suc k < length segs \<longrightarrow>
                seg_start (segs' ! Suc k) - seg_end (segs' ! k) =
                seg_start (segs ! Suc k) - seg_end (segs ! k)))"
proof -
  define k where "k = nat i"
  define delta where "delta = seg_duration (segs ! k) - nd"
  define segs1 where "segs1 = segs[k := set_duration nd (segs ! k)]"
  define segs' where "segs' = shift_starts (following i segs) (- delta) segs1"
  have k: "k < length segs" and ik: "i = int k" using assms by (simp_all add: k_def)
  have len1: "length segs1 = length segs" by (simp add: segs1_def)
  have r: "process_timerange segs i nd cut_tail_align ex = (None, segs')"
    using assms by (simp add: shrink_regime Let_def segs'_def segs1_def delta_def k_def)
  have nth: "segs' ! j =
      (if k < j then set_start (seg_start (segs1 ! j) + - delta) (segs1 ! j) else segs1 ! j)"
    if "j < length segs" for j
  proof -
    from that have "j < length segs1" by (simp only: len1)
    from following_nth [OF assms(1) this len1 [symmetric], of "- delta"]
    show ?thesis unfolding segs'_def by (simp add: ik)
  qed
  have at_k: "segs' ! k = set_duration nd (segs ! k)"
    using nth [OF k] k by (simp add: segs1_def)
  have after: "segs' ! j = set_start (seg_start (segs ! j) - delta) (segs ! j)"
    if "j < length segs" "k < j" for j
    using nth [OF that(1)] that by (simp add: segs1_def)
  have before: "segs' ! j = segs ! j" if "j < k" for j
  proof -
    from that k have "j < length segs" by simp
    from nth [OF this] that show ?thesis by (simp add: segs1_def)
  qed
  have c1: "length segs' = length segs" by (simp add: segs'_def len1)
  have c2: "seg_start (segs' ! k) = seg_start (segs ! k)"
    and c3: "seg_duration (segs' ! k) = nd"
    by (simp_all add: at_k seg_set_simps)
  have c4: "seg_start (segs' ! j) = seg_start (segs ! j) - delta \<and>
            seg_duration (segs' ! j) = seg_duration (segs ! j)"
    if "j < length segs" "k < j" for j
    by (simp add: after [OF that] seg_set_simps)
  have c6: "seg_start (segs' ! Suc k) - seg_end (segs' ! k) =
            seg_start (segs ! Suc k) - seg_end (segs ! k)" if "Suc k < length segs"
    using c4 [OF that] by (simp add: at_k seg_set_simps seg_end_eq delta_def)
  have "fst (None :: error option, segs') = None \<and> length segs' = length segs \<and>
        seg_start (segs' ! k) = seg_start (segs ! k) \<and> seg_duration (segs' ! k) = nd \<and>
        (\<forall>j < length segs. k < j \<longrightarrow>
                seg_start (segs' ! j) = seg_start (segs ! j) - delta \<and>
                seg_duration (segs' ! j) = seg_duration (segs ! j)) \<and>
        (\<forall>j < k. segs' ! j = segs ! j) \<and>
        (Suc k < length segs \<longrightarrow>
                seg_start (segs' ! Suc k) - seg_end (segs' ! k) =
                seg_start (segs ! Suc k) - seg_end (segs ! k))"
    using c1 c2 c3 c4 c6 before by simp
  then show ?thesis
    unfolding Let_def r snd_conv k_def [symmetric] delta_def [symmetric] .
qed

text \<open>
  Claim C6: under \<^verbatim>\<open>shrink\<close> (\<open>duration -= delta; start += delta // 2\<close>) the midpoint of the
  target timerange moves by at most half a microsecond, for every current duration and
  every smaller new duration.
\<close>

theorem shrink_keeps_midpoint:
  assumes "0 \<le> i" and "i < int (length segs)" and "nd < seg_duration (segs ! nat i)"
  shows "(let r = process_timerange segs i nd shrink ex
          in fst r = None \<and> seg_duration (snd r ! nat i) = nd \<and>
             \<bar>midpoint (target_timerange (snd r ! nat i)) -
                midpoint (target_timerange (segs ! nat i))\<bar> \<le> 1 / 2)"
proof -
  let ?k = "nat i"
  let ?seg = "segs ! ?k"
  let ?seg' = "set_start (seg_start ?seg + (seg_duration ?seg - nd) div 2) (set_duration nd ?seg)"
  define delta where "delta = seg_duration ?seg - nd"
  have k: "?k < length segs" using assms by simp
  have r: "process_timerange segs i nd shrink ex = (None, segs[?k := ?seg'])"
    using assms by (simp add: shrink_regime Let_def)
  have "real_of_int (delta div 2 * 2 + delta mod 2) = real_of_int delta"
    by (simp only: div_mult_mod_eq)
  then have split: "real_of_int delta = 2 * real_of_int (delta div 2) + real_of_int (delta mod 2)"
    by (simp only: of_int_add of_int_mult of_int_numeral mult.commute)
  have "0 \<le> delta mod 2" "delta mod 2 \<le> 1" by simp_all
  then have bounds: "0 \<le> real_of_int (delta mod 2)" "real_of_int (delta mod 2) \<le> 1"
    by simp_all
  have rd: "real_of_int delta = real_of_int (seg_duration ?seg) - real_of_int nd"
    by (simp add: delta_def)
  have m1: "midpoint (target_timerange ?seg') =
      real_of_int (seg_start ?seg) + real_of_int (delta div 2) + real_of_int nd / 2"
    by (simp add: midpoint_def seg_defs delta_def)
  have m0: "midpoint (target_timerange ?seg) =
      real_of_int (seg_start ?seg) + real_of_int (seg_duration ?seg) / 2"
    by (simp add: midpoint_def seg_defs)
  have "\<bar>midpoint (target_timerange ?seg') - midpoint (target_timerange ?seg)\<bar> \<le> 1 / 2"
    unfolding m1 m0 using split bounds rd by linarith
  moreover have "seg_duration ?seg' = nd" by (simp add: seg_set_simps)
  ultimately show ?thesis
    unfolding Let_def r fst_conv snd_conv using k by simp
qed


text \<open>
  The example of the spec: \<open>{start: 1000, duration: 5000}\<close> followed by a segment at 6000,
  shrunk to 3000.
\<close>

theorem cut_tail_align_shifts_followers_witness:
  "(let segs = [plain_segment ''a'' \<lparr>start = 0, duration = 5000\<rparr> \<lparr>start = 1000, duration = 5000\<rparr>,
                plain_segment ''b'' \<lparr>start = 0, duration = 2000\<rparr> \<lparr>start = 6000, duration = 2000\<rparr>];
        r = process_timerange segs 0 3000 cut_tail_align []
    in (0::int) \<le> 0 \<and> 0 < int (length segs) \<and> 3000 < seg_duration (segs ! nat 0) \<and>
       fst r = None \<and>
       target_timerange (snd r ! 0) = \<lparr>start = 1000, duration = 3000\<rparr> \<and>
       seg_start (snd r ! 1) = 4000 \<and> seg_duration (snd r ! 1) = 2000)"
proof -
  define segs where "segs =
    [plain_segment ''a'' \<lparr>start = 0, duration = 5000\<rparr> \<lparr>start = 1000, duration = 5000\<rparr>,
     plain_segment ''b'' \<lparr>start = 0, duration = 2000\<rparr> \<lparr>start = 6000, duration = 2000\<rparr>]"
  have h: "(0::int) \<le> 0" "0 < int (length segs)" "3000 < seg_duration (segs ! nat 0)"
    by (simp_all add: segs_def plain_segment_def seg_defs)
  have vals: "seg_start (segs ! 0) = 1000" "seg_duration (segs ! 0) = 5000"
    "seg_start (segs ! Suc 0) = 6000" "seg_duration (segs ! Suc 0) = 2000" "length segs = 2"
    by (simp_all add: segs_def plain_segment_def seg_defs)
  from cut_tail_align_shifts_followers [OF h, of "[]"]
  have "fst (process_timerange segs 0 3000 cut_tail_align []) = None \<and>
        seg_start (snd (process_timerange segs 0 3000 cut_tail_align []) ! 0) = 1000 \<and>
        seg_duration (snd (process_timerange segs 0 3000 cut_tail_align []) ! 0) = 3000 \<and>
        seg_start (snd (process_timerange segs 0 3000 cut_tail_align []) ! 1) = 4000 \<and>
        seg_duration (snd (process_timerange segs 0 3000 cut_tail_align []) ! 1) = 2000"
    by (simp add: Let_def vals)
  then show ?thesis
    unfolding Let_def segs_def [symmetric] using h
    by (simp add: seg_start_def seg_duration_def)
qed

theorem shrink_keeps_midpoint_witness:
  "(let segs = [plain_segment ''a'' \<lparr>start = 0, duration = 5000\<rparr> \<lparr>start = 1000, duration = 5000\<rparr>];
        r = process_timerange segs 0 2999 shrink []
    in (0::int) \<le> 0 \<and> 0 < int (length segs) \<and> 2999 < seg_duration (segs ! nat 0) \<and>
       fst r = None \<and> seg_duration (snd r ! nat 0) = 2999 \<and>
       \<bar>midpoint (target_timerange (snd r ! nat 0)) -
          midpoint (target_timerange (segs ! nat 0))\<bar> \<le> 1 / 2)"
proof -
  define segs where "segs =
    [plain_segment ''a'' \<lparr>start = 0, duration = 5000\<rparr> \<lparr>start = 1000, duration = 5000\<rparr>]"
  have h: "(0::int) \<le> 0" "0 < int (length segs)" "2999 < seg_duration (segs ! nat 0)"
    by (simp_all add: segs_def plain_segment_def seg_defs)
  from shrink_keeps_midpoint [OF h, of "[]"] h show ?thesis
    unfolding Let_def segs_def [symmetric] by simp
qed


section \<open>The paths through process\_timerange\<close>

lemma extend_loop_single:
  "extend_loop S i k dl pe ns [p] =
     (case p of
        extend_head \<Rightarrow>
          if pe \<le> seg_start (S ! k) - dl
          then (Inr True, S[k := set_start (seg_start (S ! k) - dl) (S ! k)])
          else (Inr False, S)
      | extend_tail \<Rightarrow>
          if seg_end (S ! k) + dl \<le> ns
          then (Inr True, S[k := set_duration (seg_duration (S ! k) + dl) (S ! k)])
          else (Inr False, S)
      | push_tail \<Rightarrow>
          (Inr True,
           if 0 < max 0 (seg_end (S ! k) + dl - ns)
           then shift_starts (following i S) (max 0 (seg_end (S ! k) + dl - ns))
                  (S[k := set_duration (seg_duration (S ! k) + dl) (S ! k)])
           else S[k := set_duration (seg_duration (S ! k) + dl) (S ! k)])
      | unsupported_extend \<Rightarrow> (Inl (Unsupported_extend_mode p), S))"
  by (cases p) (simp_all add: Let_def following_def)

lemma extend_loop_skip_one:
  assumes "fst (extend_loop S i k dl pe ns [p]) = Inr False"
  shows "extend_loop S i k dl pe ns (p # rest) = extend_loop S i k dl pe ns rest"
proof (cases p)
  case extend_head
  with assms show ?thesis by (simp add: Let_def split: if_splits)
next
  case extend_tail
  with assms show ?thesis by (simp add: Let_def split: if_splits)
next
  case push_tail
  with assms show ?thesis by (simp add: Let_def)
next
  case unsupported_extend
  with assms show ?thesis by simp
qed

lemma extend_loop_commit:
  assumes "fst (extend_loop S i k dl pe ns [m]) = Inr True"
  shows "extend_loop S i k dl pe ns (m # post) = extend_loop S i k dl pe ns [m]"
proof (cases m)
  case extend_head
  with assms show ?thesis by (simp add: Let_def split: if_splits)
next
  case extend_tail
  with assms show ?thesis by (simp add: Let_def split: if_splits)
next
  case push_tail
  with assms show ?thesis by (simp add: Let_def)
next
  case unsupported_extend
  with assms show ?thesis by simp
qed

lemma extend_loop_skip:
  assumes "\<forall>p \<in> set pre. fst (extend_loop S i k dl pe ns [p]) = Inr False"
  shows "extend_loop S i k dl pe ns (pre @ rest) = extend_loop S i k dl pe ns rest"
  using assms
proof (induction pre)
  case Nil
  show ?case by simp
next
  case (Cons p pre)
  then have "fst (extend_loop S i k dl pe ns [p]) = Inr False" by simp
  then have "extend_loop S i k dl pe ns (p # (pre @ rest)) = extend_loop S i k dl pe ns (pre @ rest)"
    by (rule extend_loop_skip_one)
  with Cons show ?case by simp
qed

lemma extend_loop_unchanged:
  "fst (extend_loop S i k dl pe ns ex) \<noteq> Inr True \<Longrightarrow> snd (extend_loop S i k dl pe ns ex) = S"
proof (induction ex)
  case Nil
  show ?case by simp
next
  case (Cons m ex)
  then show ?case by (cases m) (simp_all add: Let_def split: if_splits)
qed

lemma extend_loop_error:
  "fst (extend_loop S i k dl pe ns ex) = Inl e \<Longrightarrow> e = Unsupported_extend_mode unsupported_extend"
proof (induction ex)
  case Nil
  then show ?case by simp
next
  case (Cons m ex)
  then show ?case by (cases m) (simp_all add: Let_def split: if_splits)
qed

lemma extend_loop_frame:
  assumes "\<And>v s. f (set_start v s) = f s" "\<And>v s. f (set_duration v s) = f s"
  shows "map f (snd (extend_loop S i k dl pe ns ex)) = map f S"
proof (induction ex)
  case Nil
  show ?case by simp
next
  case (Cons m ex)
  then show ?case
    by (cases m) (simp_all add: Let_def assms map_update_same shift_starts_frame)
qed

lemma after_loop_fst:
  "fst (after_loop nd ex r) =
     (case fst r of Inl e \<Rightarrow> Some e | Inr True \<Rightarrow> None | Inr False \<Rightarrow> Some (ExtensionFailed nd ex))"
  by (cases r) (simp add: after_loop_def split: sum.splits bool.splits)

lemma after_loop_snd: "snd (after_loop nd ex r) = snd r"
  by (cases r) (simp add: after_loop_def split: sum.splits bool.splits)

text \<open>The paths through the method.\<close>

lemma process_timerange_cases:
  obtains
    (index_error) "process_timerange S i nd sh ex = (Some IndexError, S)"
  | (same) "process_timerange S i nd sh ex = (None, S)"
  | (shrink) k where "resolve S i = Some k" "nd < seg_duration (S ! k)"
      "process_timerange S i nd sh ex =
         (case sh of
            cut_head \<Rightarrow>
              (None, S[k := set_start (seg_start (S ! k) + (seg_duration (S ! k) - nd)) (S ! k)])
          | cut_tail \<Rightarrow> (None, S[k := set_duration nd (S ! k)])
          | cut_tail_align \<Rightarrow>
              (None, shift_starts (following i S) (- (seg_duration (S ! k) - nd))
                       (S[k := set_duration nd (S ! k)]))
          | shrink \<Rightarrow>
              (None, S[k := set_start (seg_start (S ! k) + (seg_duration (S ! k) - nd) div 2)
                                (set_duration nd (S ! k))])
          | unsupported_shrink \<Rightarrow> (Some (Unsupported_shrink_mode sh), S))"
  | (extend) k pe ns where "resolve S i = Some k" "seg_duration (S ! k) < nd"
      "prev_seg_end_of S i = Some pe" "next_seg_start_of S i = Some ns"
      "process_timerange S i nd sh ex =
         after_loop nd ex (extend_loop S i k (nd - seg_duration (S ! k)) pe ns ex)"
proof (cases "resolve S i")
  case None
  then have "process_timerange S i nd sh ex = (Some IndexError, S)"
    by (simp add: process_timerange_def)
  then show ?thesis by (rule index_error)
next
  case (Some k)
  consider "nd < seg_duration (S ! k)" | "seg_duration (S ! k) < nd" | "nd = seg_duration (S ! k)"
    by linarith
  then show ?thesis
  proof cases
    case 1
    show ?thesis
    proof (rule shrink [OF Some 1])
      show "process_timerange S i nd sh ex =
         (case sh of
            cut_head \<Rightarrow>
              (None, S[k := set_start (seg_start (S ! k) + (seg_duration (S ! k) - nd)) (S ! k)])
          | cut_tail \<Rightarrow> (None, S[k := set_duration nd (S ! k)])
          | cut_tail_align \<Rightarrow>
              (None, shift_starts (following i S) (- (seg_duration (S ! k) - nd))
                       (S[k := set_duration nd (S ! k)]))
          | shrink \<Rightarrow>
              (None, S[k := set_start (seg_start (S ! k) + (seg_duration (S ! k) - nd) div 2)
                                (set_duration nd (S ! k))])
          | unsupported_shrink \<Rightarrow> (Some (Unsupported_shrink_mode sh), S))"
        using Some 1
        by (cases sh) (simp_all add: process_timerange_def Let_def following_def seg_set_simps)
    qed
  next
    case 2
    show ?thesis
    proof (cases "prev_seg_end_of S i")
      case None
      with Some 2 have "process_timerange S i nd sh ex = (Some IndexError, S)"
        by (simp add: process_timerange_def Let_def)
      then show ?thesis by (rule index_error)
    next
      case pe: (Some pe)
      show ?thesis
      proof (cases "next_seg_start_of S i")
        case None
        with Some 2 pe have "process_timerange S i nd sh ex = (Some IndexError, S)"
          by (simp add: process_timerange_def Let_def)
        then show ?thesis by (rule index_error)
      next
        case ns: (Some ns)
        from Some 2 pe ns have "process_timerange S i nd sh ex =
            after_loop nd ex (extend_loop S i k (nd - seg_duration (S ! k)) pe ns ex)"
          by (simp add: process_timerange_def Let_def)
        with Some 2 pe ns show ?thesis by (rule extend)
      qed
    qed
  next
    case 3
    with Some have "process_timerange S i nd sh ex = (None, S)"
      by (simp add: process_timerange_def Let_def)
    then show ?thesis by (rule same)
  qed
qed

lemma process_timerange_frame:
  assumes "\<And>v s. f (set_start v s) = f s" "\<And>v s. f (set_duration v s) = f s"
  shows "map f (snd (process_timerange S i nd sh ex)) = map f S"
proof (cases rule: process_timerange_cases [of S i nd sh ex])
  case index_error
  then show ?thesis by simp
next
  case same
  then show ?thesis by simp
next
  case (shrink k)
  then show ?thesis
    by (cases sh) (simp_all add: assms map_update_same shift_starts_frame)
next
  case (extend k pe ns)
  then show ?thesis by (simp add: after_loop_snd extend_loop_frame [OF assms])
qed

lemma process_timerange_error_unchanged:
  assumes "fst (process_timerange S i nd sh ex) \<noteq> None"
  shows "snd (process_timerange S i nd sh ex) = S"
proof (cases rule: process_timerange_cases [of S i nd sh ex])
  case index_error
  then show ?thesis by simp
next
  case same
  then show ?thesis by simp
next
  case (shrink k)
  with assms show ?thesis by (cases sh) simp_all
next
  case (extend k pe ns)
  with assms have "fst (extend_loop S i k (nd - seg_duration (S ! k)) pe ns ex) \<noteq> Inr True"
    by (auto simp: after_loop_fst)
  then show ?thesis using extend by (simp add: after_loop_snd extend_loop_unchanged)
qed


lemmas run_defs = process_timerange_def resolve_def py_pos_def prev_seg_end_of_def
  next_seg_start_of_def after_loop_def following_def Let_def

text \<open>
  Claim C2: whenever the call raises ExtensionFailed, the error names the requested duration
  and the list of policies it was given, and the segments are exactly what they were before
  the call (their target and source timeranges included).
\<close>

theorem extension_failed_leaves_track:
  assumes "fst (process_timerange segs i nd sh ex) = Some (ExtensionFailed a b)"
  shows "a = nd \<and> b = ex \<and> snd (process_timerange segs i nd sh ex) = segs"
proof -
  have unchanged: "snd (process_timerange segs i nd sh ex) = segs"
    using assms by (intro process_timerange_error_unchanged) simp
  have "a = nd \<and> b = ex"
  proof (cases rule: process_timerange_cases [of segs i nd sh ex])
    case index_error
    with assms show ?thesis by simp
  next
    case same
    with assms show ?thesis by simp
  next
    case (shrink k)
    with assms show ?thesis by (cases sh) simp_all
  next
    case (extend k pe ns)
    show ?thesis
    proof (cases "fst (extend_loop segs i k (nd - seg_duration (segs ! k)) pe ns ex)")
      case (Inl e)
      then have "e = Unsupported_extend_mode unsupported_extend" by (rule extend_loop_error)
      with assms extend Inl show ?thesis by (simp add: after_loop_fst)
    next
      case (Inr flag)
      with assms extend show ?thesis by (cases flag) (simp_all add: after_loop_fst)
    qed
  qed
  with unchanged show ?thesis by simp
qed

text \<open>
  The test of the spec: three abutting segments, the middle one extended with only
  \<^verbatim>\<open>extend_head\<close> and \<^verbatim>\<open>extend_tail\<close> listed.
\<close>

theorem extension_failed_leaves_track_witness:
  "fst (process_timerange abutting_track 1 1500 cut_tail [extend_head, extend_tail]) =
     Some (ExtensionFailed 1500 [extend_head, extend_tail]) \<and>
   snd (process_timerange abutting_track 1 1500 cut_tail [extend_head, extend_tail]) =
     abutting_track"
proof -
  have h: "fst (process_timerange abutting_track 1 1500 cut_tail [extend_head, extend_tail]) =
     Some (ExtensionFailed 1500 [extend_head, extend_tail])"
    by (simp add: run_defs abutting_track_def plain_segment_def seg_defs)
  from extension_failed_leaves_track [OF h] h show ?thesis by simp
qed

text \<open>
  Claim C7, as amended: the call leaves the source timerange of every segment, start and
  duration, as it was, for every policy and every input: only target timeranges are
  assigned.
\<close>

theorem source_timerange_untouched:
  "map source_timerange (snd (process_timerange segs i nd sh ex)) = map source_timerange segs"
  by (rule process_timerange_frame) (simp_all add: seg_set_simps)

text \<open>
  Claim C7 as stated has the call set the source duration of the addressed segment: after
  shrinking \<open>{start: 1000, duration: 5000}\<close> to 3000 the source duration is still 5000.
\<close>

theorem source_duration_not_set:
  "fst (process_timerange single_track 0 3000 cut_tail []) = None \<and>
   seg_duration (snd (process_timerange single_track 0 3000 cut_tail []) ! 0) = 3000 \<and>
   duration (source_timerange (snd (process_timerange single_track 0 3000 cut_tail []) ! 0)) = 5000"
  by (simp add: run_defs single_track_def plain_segment_def seg_defs)

text \<open>
  Claim C8 as stated has a negative new duration rejected: the call with \<open>new_duration = -1\<close>
  returns and leaves the target duration \<open>-1\<close>.
\<close>

theorem negative_duration_accepted:
  "fst (process_timerange single_track 0 (- 1) cut_tail []) = None \<and>
   seg_duration (snd (process_timerange single_track 0 (- 1) cut_tail []) ! 0) = - 1"
  by (simp add: run_defs single_track_def plain_segment_def seg_defs)

text \<open>
  Claim C8, as amended: the sign of the new duration is not checked. On a valid index whose
  segment has a non-negative duration, a negative new duration is a shrink: the call returns
  for each of the four shrink policies, and under \<^verbatim>\<open>cut_tail\<close>, \<^verbatim>\<open>cut_tail_align\<close> and
  \<^verbatim>\<open>shrink\<close> the target duration becomes the negative value.
\<close>

theorem negative_duration_shrinks:
  assumes "0 \<le> i" and "i < int (length segs)" and "nd < 0"
    and "0 \<le> seg_duration (segs ! nat i)" and "sh \<noteq> unsupported_shrink"
  shows "fst (process_timerange segs i nd sh ex) = None \<and>
         (sh \<noteq> cut_head \<longrightarrow> seg_duration (snd (process_timerange segs i nd sh ex) ! nat i) = nd)"
proof -
  have lt: "nd < seg_duration (segs ! nat i)" using assms by simp
  have k: "nat i < length segs" using assms by simp
  show ?thesis
  proof (cases "sh = cut_head")
    case True
    then show ?thesis using assms(1,2) lt by (simp add: shrink_regime Let_def)
  next
    case False
    with assms(5) have "sh = cut_tail \<or> sh = cut_tail_align \<or> sh = shrink" by (cases sh) simp_all
    from shrink_sets_duration [OF assms(1,2) lt this] show ?thesis by simp
  qed
qed

theorem negative_duration_shrinks_witness:
  "(0::int) \<le> 0 \<and> 0 < int (length single_track) \<and> (- 7 :: int) < 0 \<and>
   0 \<le> seg_duration (single_track ! nat 0) \<and> shrink \<noteq> unsupported_shrink \<and>
   shrink \<noteq> cut_head \<and>
   fst (process_timerange single_track 0 (- 7) shrink [push_tail]) = None \<and>
   seg_duration (snd (process_timerange single_track 0 (- 7) shrink [push_tail]) ! nat 0) = - 7"
proof -
  have h: "(0::int) \<le> 0" "0 < int (length single_track)" "(- 7 :: int) < 0"
    "0 \<le> seg_duration (single_track ! nat 0)" "shrink \<noteq> unsupported_shrink"
    by (simp_all add: single_track_def plain_segment_def seg_defs)
  from negative_duration_shrinks [OF h, of "[push_tail]"] h show ?thesis by simp
qed


lemma extend_regime:
  assumes "0 \<le> i" "i < int (length segs)" "seg_duration (segs ! nat i) < nd"
  shows "process_timerange segs i nd sh ex =
     after_loop nd ex
       (extend_loop segs i (nat i) (nd - seg_duration (segs ! nat i))
          (if i = 0 then 0 else seg_end (segs ! (nat i - 1)))
          (if i = int (length segs) - 1 then 1000000000000000 else seg_start (segs ! Suc (nat i)))
          ex)"
proof -
  have pe: "prev_seg_end_of segs i = Some (if i = 0 then 0 else seg_end (segs ! (nat i - 1)))"
  proof (cases "i = 0")
    case True
    then show ?thesis by (simp add: prev_seg_end_of_def)
  next
    case False
    with assms have "resolve segs (i - 1) = Some (nat (i - 1))"
      by (intro resolve_nonneg) simp_all
    moreover have "nat (i - 1) = nat i - 1" by simp
    ultimately show ?thesis using False by (simp add: prev_seg_end_of_def)
  qed
  have ns: "next_seg_start_of segs i =
      Some (if i = int (length segs) - 1 then 1000000000000000 else seg_start (segs ! Suc (nat i)))"
  proof (cases "i = int (length segs) - 1")
    case True
    then show ?thesis by (simp add: next_seg_start_of_def)
  next
    case False
    with assms have "resolve segs (i + 1) = Some (nat (i + 1))"
      by (intro resolve_nonneg) simp_all
    moreover have "nat (i + 1) = Suc (nat i)" using assms(1) by simp
    ultimately show ?thesis using False by (simp add: next_seg_start_of_def)
  qed
  show ?thesis
    using assms by (simp add: process_timerange_def resolve_nonneg pe ns Let_def)
qed

lemma after_loop_failed:
  assumes "fst (after_loop nd ex r) = Some (ExtensionFailed a b)"
    and "\<And>e. fst r = Inl e \<Longrightarrow> e = Unsupported_extend_mode unsupported_extend"
  shows "fst r = Inr False"
proof (cases "fst r")
  case (Inl e)
  with assms show ?thesis by (simp add: after_loop_fst)
next
  case (Inr flag)
  with assms(1) show ?thesis by (cases flag) (simp_all add: after_loop_fst)
qed

lemma after_loop_returned:
  assumes "fst (after_loop nd ex r) = None"
  shows "fst r = Inr True"
proof (cases "fst r")
  case (Inl e)
  with assms show ?thesis by (simp add: after_loop_fst)
next
  case (Inr flag)
  with assms(1) show ?thesis by (cases flag) (simp_all add: after_loop_fst)
qed

lemma after_loop_success:
  "fst r = Inr True \<Longrightarrow> after_loop nd ex r = (None, snd r)"
  by (cases r) (simp add: after_loop_def)

lemma set_start_same: "set_start (seg_start s) s = s"
  by (simp add: set_start_def seg_start_def)


section \<open>The extend regime\<close>

lemma failed_single:
  assumes "0 \<le> i" "i < int (length segs)" "seg_duration (segs ! nat i) < nd"
    and "fst (process_timerange segs i nd sh [p]) = Some (ExtensionFailed nd [p])"
  shows "fst (extend_loop segs i (nat i) (nd - seg_duration (segs ! nat i))
          (if i = 0 then 0 else seg_end (segs ! (nat i - 1)))
          (if i = int (length segs) - 1 then 1000000000000000 else seg_start (segs ! Suc (nat i)))
          [p]) = Inr False"
  using assms(4) unfolding extend_regime [OF assms(1-3)]
  by (rule after_loop_failed) (rule extend_loop_error)

lemma returned_single:
  assumes "0 \<le> i" "i < int (length segs)" "seg_duration (segs ! nat i) < nd"
    and "fst (process_timerange segs i nd sh [m]) = None"
  shows "fst (extend_loop segs i (nat i) (nd - seg_duration (segs ! nat i))
          (if i = 0 then 0 else seg_end (segs ! (nat i - 1)))
          (if i = int (length segs) - 1 then 1000000000000000 else seg_start (segs ! Suc (nat i)))
          [m]) = Inr True"
  using assms(4) unfolding extend_regime [OF assms(1-3)]
  by (rule after_loop_returned)

text \<open>
  Claim C3: in the extend regime the listed policies are tried in the order given and the
  first that succeeds is the one committed: after a prefix of policies that each fail on
  their own, a policy that succeeds on its own gives the result of the whole list, whatever
  follows it, and a list of failing policies raises ExtensionFailed with the track as it was.
  \<^verbatim>\<open>extend_head\<close> succeeds exactly when \<open>start - delta \<ge> prev_end\<close>, where \<open>prev_end\<close> is the
  end of the previous segment, or 0 for the first; when it fails nothing is assigned and the
  outcome is that of the rest of the list.

  What the committed policy leaves, after a prefix of failing policies and whatever follows
  it in the list: \<^verbatim>\<open>extend_head\<close> the start at \<open>start - delta\<close>; \<^verbatim>\<open>extend_tail\<close>, which succeeds
  exactly when \<open>end + delta \<le> next_start\<close>, the start kept and the duration at the new
  duration; \<^verbatim>\<open>push_tail\<close> the same for the addressed segment. Under the first two every other
  segment is what it was.
\<close>

theorem first_listed_success_commits:
  assumes "0 \<le> i" and "i < int (length segs)" and "seg_duration (segs ! nat i) < nd"
  shows
   "((\<forall>p \<in> set pre. fst (process_timerange segs i nd sh [p]) = Some (ExtensionFailed nd [p])) \<and>
       fst (process_timerange segs i nd sh [m]) = None
       \<longrightarrow> process_timerange segs i nd sh (pre @ m # post) = process_timerange segs i nd sh [m]) \<and>
    ((\<forall>p \<in> set pre. fst (process_timerange segs i nd sh [p]) = Some (ExtensionFailed nd [p]))
       \<longrightarrow> process_timerange segs i nd sh pre = (Some (ExtensionFailed nd pre), segs)) \<and>
    (let k = nat i; seg = segs ! k; delta = nd - seg_duration seg;
         prev_end = (if i = 0 then 0 else seg_end (segs ! (k - 1)))
     in (fst (process_timerange segs i nd sh [extend_head]) = None
           \<longleftrightarrow> prev_end \<le> seg_start seg - delta) \<and>
        (prev_end \<le> seg_start seg - delta \<longrightarrow>
           process_timerange segs i nd sh [extend_head] =
             (None, segs[k := set_start (seg_start seg - delta) seg])) \<and>
        (\<not> prev_end \<le> seg_start seg - delta \<longrightarrow>
           process_timerange segs i nd sh [extend_head] =
             (Some (ExtensionFailed nd [extend_head]), segs) \<and>
           snd (process_timerange segs i nd sh (extend_head # rest)) =
             snd (process_timerange segs i nd sh rest) \<and>
           (fst (process_timerange segs i nd sh (extend_head # rest)) = None
              \<longleftrightarrow> fst (process_timerange segs i nd sh rest) = None))) \<and>
    (let k = nat i; seg = segs ! k; delta = nd - seg_duration seg;
         prev_end = (if i = 0 then 0 else seg_end (segs ! (k - 1)));
         next_start = (if i = int (length segs) - 1 then 1000000000000000
                       else seg_start (segs ! Suc k));
         failed = (\<forall>p \<in> set pre.
                     fst (process_timerange segs i nd sh [p]) = Some (ExtensionFailed nd [p]));
         by_head = process_timerange segs i nd sh (pre @ extend_head # post);
         by_tail = process_timerange segs i nd sh (pre @ extend_tail # post);
         by_push = process_timerange segs i nd sh (pre @ push_tail # post)
     in (fst (process_timerange segs i nd sh [extend_tail]) = None
           \<longleftrightarrow> seg_end seg + delta \<le> next_start) \<and>
        (failed \<and> prev_end \<le> seg_start seg - delta \<longrightarrow>
           fst by_head = None \<and> length (snd by_head) = length segs \<and>
           seg_start (snd by_head ! k) = seg_start seg - delta \<and>
           (\<forall>j < length segs. j \<noteq> k \<longrightarrow> snd by_head ! j = segs ! j)) \<and>
        (failed \<and> seg_end seg + delta \<le> next_start \<longrightarrow>
           fst by_tail = None \<and> length (snd by_tail) = length segs \<and>
           seg_start (snd by_tail ! k) = seg_start seg \<and>
           seg_duration (snd by_tail ! k) = nd \<and>
           (\<forall>j < length segs. j \<noteq> k \<longrightarrow> snd by_tail ! j = segs ! j)) \<and>
        (failed \<longrightarrow>
           fst by_push = None \<and> length (snd by_push) = length segs \<and>
           seg_start (snd by_push ! k) = seg_start seg \<and>
           seg_duration (snd by_push ! k) = nd))"
proof -
  define k where "k = nat i"
  define delta where "delta = nd - seg_duration (segs ! k)"
  define pe where "pe = (if i = 0 then 0 else seg_end (segs ! (k - 1)))"
  define ns where "ns = (if i = int (length segs) - 1 then 1000000000000000
                         else seg_start (segs ! Suc k))"
  define L where "L = extend_loop segs i k delta pe ns"
  define failed where "failed \<longleftrightarrow> (\<forall>p \<in> set pre.
      fst (process_timerange segs i nd sh [p]) = Some (ExtensionFailed nd [p]))"
  have k: "k < length segs" and ik: "i = int k" using assms by (simp_all add: k_def)
  have pt: "process_timerange segs i nd sh ex = after_loop nd ex (L ex)" for ex
    unfolding L_def k_def delta_def pe_def ns_def by (rule extend_regime [OF assms])
  have failed: "fst (L [p]) = Inr False"
    if "fst (process_timerange segs i nd sh [p]) = Some (ExtensionFailed nd [p])" for p
    unfolding L_def k_def delta_def pe_def ns_def by (rule failed_single [OF assms that])
  have returned: "fst (L [m]) = Inr True"
    if "fst (process_timerange segs i nd sh [m]) = None" for m
    unfolding L_def k_def delta_def pe_def ns_def by (rule returned_single [OF assms that])
  have part1: "process_timerange segs i nd sh (pre @ m # post) = process_timerange segs i nd sh [m]"
    if pre: "\<forall>p \<in> set pre. fst (process_timerange segs i nd sh [p]) = Some (ExtensionFailed nd [p])"
      and m: "fst (process_timerange segs i nd sh [m]) = None" for m
  proof -
    from pre have "\<forall>p \<in> set pre. fst (L [p]) = Inr False" using failed by blast
    then have "L (pre @ m # post) = L (m # post)"
      unfolding L_def by (rule extend_loop_skip)
    also have "\<dots> = L [m]"
      unfolding L_def using returned [OF m, unfolded L_def] by (rule extend_loop_commit)
    finally have eq: "L (pre @ m # post) = L [m]" .
    show ?thesis
      unfolding pt eq using returned [OF m] by (simp add: after_loop_success)
  qed
  have part2: "process_timerange segs i nd sh pre = (Some (ExtensionFailed nd pre), segs)"
    if pre: "\<forall>p \<in> set pre. fst (process_timerange segs i nd sh [p]) = Some (ExtensionFailed nd [p])"
  proof -
    from pre have "\<forall>p \<in> set pre. fst (L [p]) = Inr False" using failed by blast
    then have "L (pre @ []) = L []"
      unfolding L_def by (rule extend_loop_skip)
    then have "L pre = (Inr False, segs)" by (simp add: L_def)
    then show ?thesis unfolding pt by (simp add: after_loop_def)
  qed
  have single: "L [extend_head] =
      (if pe \<le> seg_start (segs ! k) - delta
       then (Inr True, segs[k := set_start (seg_start (segs ! k) - delta) (segs ! k)])
       else (Inr False, segs))"
    unfolding L_def by (simp add: Let_def)
  have part3a: "fst (process_timerange segs i nd sh [extend_head]) = None
           \<longleftrightarrow> pe \<le> seg_start (segs ! k) - delta"
    unfolding pt single by (simp add: after_loop_def)
  have part3b: "process_timerange segs i nd sh [extend_head] =
             (None, segs[k := set_start (seg_start (segs ! k) - delta) (segs ! k)])"
    if "pe \<le> seg_start (segs ! k) - delta"
    unfolding pt single using that by (simp add: after_loop_def)
  have part3c: "process_timerange segs i nd sh [extend_head] =
             (Some (ExtensionFailed nd [extend_head]), segs)"
    if "\<not> pe \<le> seg_start (segs ! k) - delta"
    unfolding pt single using that by (simp add: after_loop_def)
  have skip: "L (extend_head # rest) = L rest" if "\<not> pe \<le> seg_start (segs ! k) - delta"
    unfolding L_def using that by (simp add: Let_def)
  have part3d: "snd (process_timerange segs i nd sh (extend_head # rest)) =
             snd (process_timerange segs i nd sh rest)"
    if "\<not> pe \<le> seg_start (segs ! k) - delta"
    unfolding pt skip [OF that] by (simp add: after_loop_snd)
  have part3e: "fst (process_timerange segs i nd sh (extend_head # rest)) = None
              \<longleftrightarrow> fst (process_timerange segs i nd sh rest) = None"
    if "\<not> pe \<le> seg_start (segs ! k) - delta"
    unfolding pt skip [OF that]
    by (simp add: after_loop_fst split: sum.splits bool.splits)
  have nd: "seg_duration (segs ! k) + delta = nd" by (simp add: delta_def)
  have single_tail: "L [extend_tail] =
      (if seg_end (segs ! k) + delta \<le> ns
       then (Inr True, segs[k := set_duration nd (segs ! k)])
       else (Inr False, segs))"
    unfolding L_def by (simp add: Let_def nd)
  have tail_iff: "fst (process_timerange segs i nd sh [extend_tail]) = None
           \<longleftrightarrow> seg_end (segs ! k) + delta \<le> ns"
    unfolding pt single_tail by (simp add: after_loop_def)
  have by_head: "process_timerange segs i nd sh (pre @ extend_head # post) =
      (None, segs[k := set_start (seg_start (segs ! k) - delta) (segs ! k)])"
    if "failed" "pe \<le> seg_start (segs ! k) - delta"
  proof -
    from that(2) have "fst (process_timerange segs i nd sh [extend_head]) = None"
      by (simp only: part3a)
    with that(1) have "process_timerange segs i nd sh (pre @ extend_head # post) =
        process_timerange segs i nd sh [extend_head]"
      unfolding failed_def by (rule part1)
    with part3b [OF that(2)] show ?thesis by simp
  qed
  have by_tail: "process_timerange segs i nd sh (pre @ extend_tail # post) =
      (None, segs[k := set_duration nd (segs ! k)])"
    if "failed" "seg_end (segs ! k) + delta \<le> ns"
  proof -
    from that(2) have r: "fst (process_timerange segs i nd sh [extend_tail]) = None"
      by (simp only: tail_iff)
    with that(1) have "process_timerange segs i nd sh (pre @ extend_tail # post) =
        process_timerange segs i nd sh [extend_tail]"
      unfolding failed_def by (rule part1)
    also have "\<dots> = (None, segs[k := set_duration nd (segs ! k)])"
      unfolding pt single_tail using that(2) by (simp add: after_loop_def)
    finally show ?thesis .
  qed
  define shift where "shift = max 0 (seg_end (segs ! k) + delta - ns)"
  define segs1 where "segs1 = segs[k := set_duration nd (segs ! k)]"
  define pushed where
    "pushed = (if 0 < shift then shift_starts (following i segs) shift segs1 else segs1)"
  have len1: "length segs1 = length segs" by (simp add: segs1_def)
  have single_push: "L [push_tail] = (Inr True, pushed)"
    unfolding L_def pushed_def segs1_def shift_def
    by (simp add: extend_loop_single nd del: extend_loop.simps)
  have by_push: "process_timerange segs i nd sh (pre @ push_tail # post) = (None, pushed)"
    if "failed"
  proof -
    have "fst (process_timerange segs i nd sh [push_tail]) = None"
      unfolding pt single_push by (simp add: after_loop_def)
    with that have "process_timerange segs i nd sh (pre @ push_tail # post) =
        process_timerange segs i nd sh [push_tail]"
      unfolding failed_def by (rule part1)
    also have "\<dots> = (None, pushed)"
      unfolding pt single_push by (simp add: after_loop_def)
    finally show ?thesis .
  qed
  have pushed_k: "pushed ! k = set_duration nd (segs ! k)"
  proof (cases "0 < shift")
    case True
    from k have "k < length segs1" by (simp only: len1)
    from following_nth [OF assms(1) this len1 [symmetric], of shift] True k
    show ?thesis unfolding pushed_def by (simp add: ik segs1_def)
  next
    case False
    with k show ?thesis by (simp add: pushed_def segs1_def)
  qed
  have pushed_len: "length pushed = length segs" by (simp add: pushed_def len1)
  have old: "(fst (process_timerange segs i nd sh [extend_head]) = None
           \<longleftrightarrow> pe \<le> seg_start (segs ! k) - delta) \<and>
        (pe \<le> seg_start (segs ! k) - delta \<longrightarrow>
           process_timerange segs i nd sh [extend_head] =
             (None, segs[k := set_start (seg_start (segs ! k) - delta) (segs ! k)])) \<and>
        (\<not> pe \<le> seg_start (segs ! k) - delta \<longrightarrow>
           process_timerange segs i nd sh [extend_head] =
             (Some (ExtensionFailed nd [extend_head]), segs) \<and>
           snd (process_timerange segs i nd sh (extend_head # rest)) =
             snd (process_timerange segs i nd sh rest) \<and>
           (fst (process_timerange segs i nd sh (extend_head # rest)) = None
              \<longleftrightarrow> fst (process_timerange segs i nd sh rest) = None))"
    using part3a part3b part3c part3d part3e by blast
  have head_obs: "fst (process_timerange segs i nd sh (pre @ extend_head # post)) = None \<and>
      length (snd (process_timerange segs i nd sh (pre @ extend_head # post))) = length segs \<and>
      seg_start (snd (process_timerange segs i nd sh (pre @ extend_head # post)) ! k) =
        seg_start (segs ! k) - delta \<and>
      (\<forall>j < length segs. j \<noteq> k \<longrightarrow>
         snd (process_timerange segs i nd sh (pre @ extend_head # post)) ! j = segs ! j)"
    if "failed \<and> pe \<le> seg_start (segs ! k) - delta"
  proof -
    from that have "failed" "pe \<le> seg_start (segs ! k) - delta" by simp_all
    from by_head [OF this] k show ?thesis by (simp add: seg_set_simps)
  qed
  have tail_obs: "fst (process_timerange segs i nd sh (pre @ extend_tail # post)) = None \<and>
      length (snd (process_timerange segs i nd sh (pre @ extend_tail # post))) = length segs \<and>
      seg_start (snd (process_timerange segs i nd sh (pre @ extend_tail # post)) ! k) =
        seg_start (segs ! k) \<and>
      seg_duration (snd (process_timerange segs i nd sh (pre @ extend_tail # post)) ! k) = nd \<and>
      (\<forall>j < length segs. j \<noteq> k \<longrightarrow>
         snd (process_timerange segs i nd sh (pre @ extend_tail # post)) ! j = segs ! j)"
    if "failed \<and> seg_end (segs ! k) + delta \<le> ns"
  proof -
    from that have "failed" "seg_end (segs ! k) + delta \<le> ns" by simp_all
    from by_tail [OF this] k show ?thesis by (simp add: seg_set_simps)
  qed
  have push_obs: "fst (process_timerange segs i nd sh (pre @ push_tail # post)) = None \<and>
      length (snd (process_timerange segs i nd sh (pre @ push_tail # post))) = length segs \<and>
      seg_start (snd (process_timerange segs i nd sh (pre @ push_tail # post)) ! k) =
        seg_start (segs ! k) \<and>
      seg_duration (snd (process_timerange segs i nd sh (pre @ push_tail # post)) ! k) = nd"
    if "failed"
    using by_push [OF that] by (simp add: pushed_k pushed_len seg_set_simps)
  have new: "(fst (process_timerange segs i nd sh [extend_tail]) = None
           \<longleftrightarrow> seg_end (segs ! k) + delta \<le> ns) \<and>
        (failed \<and> pe \<le> seg_start (segs ! k) - delta \<longrightarrow>
           fst (process_timerange segs i nd sh (pre @ extend_head # post)) = None \<and>
           length (snd (process_timerange segs i nd sh (pre @ extend_head # post))) = length segs \<and>
           seg_start (snd (process_timerange segs i nd sh (pre @ extend_head # post)) ! k) =
             seg_start (segs ! k) - delta \<and>
           (\<forall>j < length segs. j \<noteq> k \<longrightarrow>
              snd (process_timerange segs i nd sh (pre @ extend_head # post)) ! j = segs ! j)) \<and>
        (failed \<and> seg_end (segs ! k) + delta \<le> ns \<longrightarrow>
           fst (process_timerange segs i nd sh (pre @ extend_tail # post)) = None \<and>
           length (snd (process_timerange segs i nd sh (pre @ extend_tail # post))) = length segs \<and>
           seg_start (snd (process_timerange segs i nd sh (pre @ extend_tail # post)) ! k) =
             seg_start (segs ! k) \<and>
           seg_duration (snd (process_timerange segs i nd sh (pre @ extend_tail # post)) ! k) = nd \<and>
           (\<forall>j < length segs. j \<noteq> k \<longrightarrow>
              snd (process_timerange segs i nd sh (pre @ extend_tail # post)) ! j = segs ! j)) \<and>
        (failed \<longrightarrow>
           fst (process_timerange segs i nd sh (pre @ push_tail # post)) = None \<and>
           length (snd (process_timerange segs i nd sh (pre @ push_tail # post))) = length segs \<and>
           seg_start (snd (process_timerange segs i nd sh (pre @ push_tail # post)) ! k) =
             seg_start (segs ! k) \<and>
           seg_duration (snd (process_timerange segs i nd sh (pre @ push_tail # post)) ! k) = nd)"
    using tail_iff head_obs tail_obs push_obs by blast
  have p1: "failed \<and> fst (process_timerange segs i nd sh [m]) = None
       \<longrightarrow> process_timerange segs i nd sh (pre @ m # post) = process_timerange segs i nd sh [m]"
    unfolding failed_def using part1 by blast
  have p2: "failed \<longrightarrow> process_timerange segs i nd sh pre = (Some (ExtensionFailed nd pre), segs)"
    unfolding failed_def using part2 by blast
  show ?thesis
    unfolding Let_def k_def [symmetric] delta_def [symmetric] pe_def [symmetric]
      ns_def [symmetric] failed_def [symmetric]
    by (rule conjI [OF p1 conjI [OF p2 conjI [OF old new]]])
qed

text \<open>
  The last of three abutting segments has no room before it and room after it; the single
  segment at 1000 has room before it.
\<close>

theorem first_listed_success_commits_witness:
  "(0::int) \<le> 2 \<and> 2 < int (length abutting_track) \<and>
   seg_duration (abutting_track ! nat 2) < 1500 \<and>
   fst (process_timerange abutting_track 2 1500 cut_tail [extend_head]) =
     Some (ExtensionFailed 1500 [extend_head]) \<and>
   fst (process_timerange abutting_track 2 1500 cut_tail [extend_tail]) = None \<and>
   process_timerange abutting_track 2 1500 cut_tail ([extend_head] @ extend_tail # [push_tail]) =
     process_timerange abutting_track 2 1500 cut_tail [extend_tail] \<and>
   process_timerange abutting_track 2 1500 cut_tail [extend_head] =
     (Some (ExtensionFailed 1500 [extend_head]), abutting_track) \<and>
   (0::int) \<le> 0 \<and> 0 < int (length single_track) \<and>
   seg_duration (single_track ! nat 0) < 5500 \<and>
   0 \<le> seg_start (single_track ! nat 0) - (5500 - seg_duration (single_track ! nat 0)) \<and>
   process_timerange single_track 0 5500 cut_tail [extend_head] =
     (None, single_track[nat 0 := set_start 500 (single_track ! nat 0)]) \<and>
   fst (process_timerange abutting_track 2 1500 cut_tail
          ([extend_head] @ extend_tail # [push_tail])) = None \<and>
   seg_start (snd (process_timerange abutting_track 2 1500 cut_tail
          ([extend_head] @ extend_tail # [push_tail])) ! 2) = 2000 \<and>
   seg_duration (snd (process_timerange abutting_track 2 1500 cut_tail
          ([extend_head] @ extend_tail # [push_tail])) ! 2) = 1500 \<and>
   snd (process_timerange abutting_track 2 1500 cut_tail
          ([extend_head] @ extend_tail # [push_tail])) ! 0 = abutting_track ! 0 \<and>
   snd (process_timerange abutting_track 2 1500 cut_tail
          ([extend_head] @ extend_tail # [push_tail])) ! 1 = abutting_track ! 1 \<and>
   fst (process_timerange single_track 0 5500 cut_tail ([] @ extend_head # [])) = None \<and>
   seg_start (snd (process_timerange single_track 0 5500 cut_tail
          ([] @ extend_head # [])) ! 0) = 500"
proof -
  have h: "(0::int) \<le> 2" "2 < int (length abutting_track)"
    "seg_duration (abutting_track ! nat 2) < 1500"
    by (simp_all add: abutting_track_def plain_segment_def seg_defs)
  have pre: "\<forall>p \<in> set [extend_head].
      fst (process_timerange abutting_track 2 1500 cut_tail [p]) =
        Some (ExtensionFailed 1500 [p])"
    by (simp add: run_defs abutting_track_def plain_segment_def seg_defs)
  have m: "fst (process_timerange abutting_track 2 1500 cut_tail [extend_tail]) = None"
    by (simp add: run_defs abutting_track_def plain_segment_def seg_defs)
  have no_room: "\<not> (if (2::int) = 0 then 0 else seg_end (abutting_track ! (nat 2 - 1)))
      \<le> seg_start (abutting_track ! nat 2) - (1500 - seg_duration (abutting_track ! nat 2))"
    by (simp add: abutting_track_def plain_segment_def seg_defs)
  have tail_room: "seg_end (abutting_track ! nat 2) +
        (1500 - seg_duration (abutting_track ! nat 2))
      \<le> (if (2::int) = int (length abutting_track) - 1 then 1000000000000000
          else seg_start (abutting_track ! Suc (nat 2)))"
    by (simp add: abutting_track_def plain_segment_def seg_defs)
  note t = first_listed_success_commits [OF h, where pre = "[extend_head]" and m = extend_tail
      and post = "[push_tail]" and sh = cut_tail and rest = "[]", unfolded Let_def]
  from t pre m have c1:
    "process_timerange abutting_track 2 1500 cut_tail ([extend_head] @ extend_tail # [push_tail]) =
     process_timerange abutting_track 2 1500 cut_tail [extend_tail]"
    by blast
  from t no_room have c2: "process_timerange abutting_track 2 1500 cut_tail [extend_head] =
     (Some (ExtensionFailed 1500 [extend_head]), abutting_track)"
    by blast
  define r where "r = process_timerange abutting_track 2 1500 cut_tail
          ([extend_head] @ extend_tail # [push_tail])"
  from t pre tail_room
  have obs: "fst r = None \<and>
      seg_start (snd r ! nat 2) = seg_start (abutting_track ! nat 2) \<and>
      seg_duration (snd r ! nat 2) = 1500 \<and>
      (\<forall>j < length abutting_track. j \<noteq> nat 2 \<longrightarrow> snd r ! j = abutting_track ! j)"
    unfolding r_def by blast
  have n2: "nat 2 = 2" "length abutting_track = 3" "seg_start (abutting_track ! 2) = 2000"
    by (simp_all add: abutting_track_def plain_segment_def seg_defs)
  from obs have d1: "fst r = None" and d2: "seg_start (snd r ! 2) = 2000"
    and d3: "seg_duration (snd r ! 2) = 1500"
    and d4: "snd r ! 0 = abutting_track ! 0" and d5: "snd r ! 1 = abutting_track ! 1"
    by (simp_all add: n2)
  have g: "(0::int) \<le> 0" "0 < int (length single_track)"
    "seg_duration (single_track ! nat 0) < 5500"
    by (simp_all add: single_track_def plain_segment_def seg_defs)
  have room: "(if (0::int) = 0 then 0 else seg_end (single_track ! (nat 0 - 1)))
      \<le> seg_start (single_track ! nat 0) - (5500 - seg_duration (single_track ! nat 0))"
    by (simp add: single_track_def plain_segment_def seg_defs)
  have v: "seg_start (single_track ! nat 0) - (5500 - seg_duration (single_track ! nat 0)) = 500"
    by (simp add: single_track_def plain_segment_def seg_defs)
  have none: "\<forall>p \<in> set ([] :: Extend_mode list).
      fst (process_timerange single_track 0 5500 cut_tail [p]) =
        Some (ExtensionFailed 5500 [p])"
    by simp
  note u = first_listed_success_commits [OF g, where pre = "[]" and m = extend_head
      and post = "[]" and sh = cut_tail and rest = "[]", unfolded Let_def]
  from u room have "process_timerange single_track 0 5500 cut_tail [extend_head] =
     (None, single_track[nat 0 := set_start
        (seg_start (single_track ! nat 0) - (5500 - seg_duration (single_track ! nat 0)))
        (single_track ! nat 0)])"
    by blast
  then have c3: "process_timerange single_track 0 5500 cut_tail [extend_head] =
     (None, single_track[nat 0 := set_start 500 (single_track ! nat 0)])"
    by (simp only: v)
  have room': "0 \<le> seg_start (single_track ! nat 0) - (5500 - seg_duration (single_track ! nat 0))"
    by (simp only: v)
  define q where "q = process_timerange single_track 0 5500 cut_tail ([] @ extend_head # [])"
  from u none room
  have "fst q = None \<and>
      seg_start (snd q ! nat 0) =
        seg_start (single_track ! nat 0) - (5500 - seg_duration (single_track ! nat 0))"
    unfolding q_def by blast
  moreover have "seg_start (single_track ! 0) = 1000" "seg_duration (single_track ! 0) = 5000"
    by (simp_all add: single_track_def plain_segment_def seg_defs)
  ultimately have e1: "fst q = None" and e2: "seg_start (snd q ! 0) = 500"
    by simp_all
  from pre have pre1: "fst (process_timerange abutting_track 2 1500 cut_tail [extend_head]) =
     Some (ExtensionFailed 1500 [extend_head])" by simp
  show ?thesis
    unfolding r_def [symmetric] q_def [symmetric]
    by (intro conjI h pre1 m c1 [folded r_def] c2 g c3 room' d1 d2 d3 d4 d5 e1 e2)
qed

text \<open>
  Claim C4: \<^verbatim>\<open>push_tail\<close>, once reached, succeeds: the segment takes the new duration, every
  following segment's start moves by \<open>max 0 (end + delta - next_start)\<close>, and a successor
  that abutted starts at \<open>start + duration_before + delta\<close>, the new end.
\<close>

theorem push_tail_always_succeeds:
  assumes "0 \<le> i" and "i < int (length segs)" and "seg_duration (segs ! nat i) < nd"
    and "\<forall>p \<in> set pre. fst (process_timerange segs i nd sh [p]) = Some (ExtensionFailed nd [p])"
  shows "(let r = process_timerange segs i nd sh (pre @ push_tail # post); segs' = snd r;
              k = nat i; seg = segs ! k; delta = nd - seg_duration seg;
              next_start = (if i = int (length segs) - 1 then 1000000000000000
                            else seg_start (segs ! Suc k));
              shift = max 0 (seg_end seg + delta - next_start)
          in fst r = None \<and> length segs' = length segs \<and>
             seg_start (segs' ! k) = seg_start seg \<and>
             seg_duration (segs' ! k) = nd \<and>
             (\<forall>j < length segs. k < j \<longrightarrow>
                seg_start (segs' ! j) = seg_start (segs ! j) + shift \<and>
                seg_duration (segs' ! j) = seg_duration (segs ! j)) \<and>
             (\<forall>j < k. segs' ! j = segs ! j) \<and>
             (Suc k < length segs \<and> seg_end seg = seg_start (segs ! Suc k) \<longrightarrow>
                seg_start (segs' ! Suc k) = seg_start seg + seg_duration seg + delta \<and>
                seg_start (segs' ! Suc k) = seg_end (segs' ! k)))"
proof -
  define k where "k = nat i"
  define seg where "seg = segs ! k"
  define delta where "delta = nd - seg_duration seg"
  define pe where "pe = (if i = 0 then 0 else seg_end (segs ! (k - 1)))"
  define ns where "ns = (if i = int (length segs) - 1 then 1000000000000000
                         else seg_start (segs ! Suc k))"
  define shift where "shift = max 0 (seg_end seg + delta - ns)"
  define L where "L = extend_loop segs i k delta pe ns"
  define segs1 where "segs1 = segs[k := set_duration nd seg]"
  define segs' where "segs' = (if 0 < shift then shift_starts (following i segs) shift segs1 else segs1)"
  have k: "k < length segs" and ik: "i = int k" using assms by (simp_all add: k_def)
  have len1: "length segs1 = length segs" by (simp add: segs1_def)
  have pt: "process_timerange segs i nd sh ex = after_loop nd ex (L ex)" for ex
    unfolding L_def k_def delta_def pe_def ns_def seg_def by (rule extend_regime [OF assms(1-3)])
  have failed: "fst (L [p]) = Inr False"
    if "fst (process_timerange segs i nd sh [p]) = Some (ExtensionFailed nd [p])" for p
    unfolding L_def k_def delta_def pe_def ns_def seg_def
    by (rule failed_single [OF assms(1-3) that])
  have single: "L [push_tail] = (Inr True, segs')"
    unfolding L_def segs'_def segs1_def shift_def seg_def
    by (simp add: extend_loop_single delta_def seg_def del: extend_loop.simps)
  from assms(4) have "\<forall>p \<in> set pre. fst (L [p]) = Inr False" using failed by blast
  then have "L (pre @ push_tail # post) = L (push_tail # post)"
    unfolding L_def by (rule extend_loop_skip)
  also have "\<dots> = L [push_tail]"
    unfolding L_def by (rule extend_loop_commit) (simp only: single [unfolded L_def] fst_conv)
  finally have "L (pre @ push_tail # post) = (Inr True, segs')" by (simp add: single)
  then have r: "process_timerange segs i nd sh (pre @ push_tail # post) = (None, segs')"
    unfolding pt by (simp add: after_loop_def)
  have nth: "segs' ! j =
      (if k < j then set_start (seg_start (segs1 ! j) + shift) (segs1 ! j) else segs1 ! j)"
    if "j < length segs" for j
  proof (cases "0 < shift")
    case True
    from that have "j < length segs1" by (simp only: len1)
    from following_nth [OF assms(1) this len1 [symmetric], of shift] True
    show ?thesis unfolding segs'_def by (simp add: ik)
  next
    case False
    then have "shift = 0" by (simp add: shift_def)
    then show ?thesis by (simp add: segs'_def set_start_same)
  qed
  have at_k: "segs' ! k = set_duration nd seg"
    using nth [OF k] k by (simp add: segs1_def)
  have after: "segs' ! j = set_start (seg_start (segs ! j) + shift) (segs ! j)"
    if "j < length segs" "k < j" for j
    using nth [OF that(1)] that by (simp add: segs1_def)
  have before: "segs' ! j = segs ! j" if "j < k" for j
  proof -
    from that k have "j < length segs" by simp
    from nth [OF this] that show ?thesis by (simp add: segs1_def)
  qed
  have c1: "length segs' = length segs" by (simp add: segs'_def len1)
  have c2: "seg_start (segs' ! k) = seg_start seg"
    and c3: "seg_duration (segs' ! k) = nd"
    by (simp_all add: at_k seg_set_simps)
  have c4: "seg_start (segs' ! j) = seg_start (segs ! j) + shift \<and>
            seg_duration (segs' ! j) = seg_duration (segs ! j)"
    if "j < length segs" "k < j" for j
    by (simp add: after [OF that] seg_set_simps)
  have c6: "seg_start (segs' ! Suc k) = seg_start seg + seg_duration seg + delta \<and>
            seg_start (segs' ! Suc k) = seg_end (segs' ! k)"
    if "Suc k < length segs" "seg_end seg = seg_start (segs ! Suc k)"
  proof -
    from that(1) have "i \<noteq> int (length segs) - 1" by (simp add: ik)
    then have "ns = seg_end seg" by (simp add: ns_def that(2))
    moreover have "0 < delta" using assms(3) by (simp add: delta_def seg_def k_def)
    ultimately have "shift = delta" by (simp add: shift_def)
    with c4 [OF that(1)] that(2) show ?thesis
      by (simp add: at_k seg_set_simps seg_end_eq delta_def)
  qed
  have "fst (None :: error option, segs') = None \<and> length segs' = length segs \<and>
        seg_start (segs' ! k) = seg_start seg \<and> seg_duration (segs' ! k) = nd \<and>
        (\<forall>j < length segs. k < j \<longrightarrow>
                seg_start (segs' ! j) = seg_start (segs ! j) + shift \<and>
                seg_duration (segs' ! j) = seg_duration (segs ! j)) \<and>
        (\<forall>j < k. segs' ! j = segs ! j) \<and>
        (Suc k < length segs \<and> seg_end seg = seg_start (segs ! Suc k) \<longrightarrow>
                seg_start (segs' ! Suc k) = seg_start seg + seg_duration seg + delta \<and>
                seg_start (segs' ! Suc k) = seg_end (segs' ! k))"
  proof (intro conjI)
    show "fst (None :: error option, segs') = None" by simp
    show "\<forall>j < length segs. k < j \<longrightarrow>
                seg_start (segs' ! j) = seg_start (segs ! j) + shift \<and>
                seg_duration (segs' ! j) = seg_duration (segs ! j)"
      using c4 by blast
    show "\<forall>j < k. segs' ! j = segs ! j" using before by blast
    show "Suc k < length segs \<and> seg_end seg = seg_start (segs ! Suc k) \<longrightarrow>
                seg_start (segs' ! Suc k) = seg_start seg + seg_duration seg + delta \<and>
                seg_start (segs' ! Suc k) = seg_end (segs' ! k)"
      using c6 by blast
  qed (rule c1 c2 c3)+
  then show ?thesis
    unfolding Let_def r snd_conv k_def [symmetric] seg_def [symmetric] delta_def [symmetric]
      ns_def [symmetric] shift_def [symmetric] .
qed


text \<open>The first of three abutting segments, extended by 500 after two failing policies.\<close>

theorem push_tail_always_succeeds_witness:
  "(0::int) \<le> 0 \<and> 0 < int (length abutting_track) \<and>
   seg_duration (abutting_track ! nat 0) < 1500 \<and>
   fst (process_timerange abutting_track 0 1500 cut_tail [extend_head]) =
     Some (ExtensionFailed 1500 [extend_head]) \<and>
   fst (process_timerange abutting_track 0 1500 cut_tail [extend_tail]) =
     Some (ExtensionFailed 1500 [extend_tail]) \<and>
   Suc (nat 0) < length abutting_track \<and>
   seg_end (abutting_track ! nat 0) = seg_start (abutting_track ! Suc (nat 0)) \<and>
   fst (process_timerange abutting_track 0 1500 cut_tail
          ([extend_head, extend_tail] @ push_tail # [])) = None \<and>
   seg_start (snd (process_timerange abutting_track 0 1500 cut_tail
          ([extend_head, extend_tail] @ push_tail # [])) ! 0) = 0 \<and>
   seg_duration (snd (process_timerange abutting_track 0 1500 cut_tail
          ([extend_head, extend_tail] @ push_tail # [])) ! 0) = 1500 \<and>
   seg_start (snd (process_timerange abutting_track 0 1500 cut_tail
          ([extend_head, extend_tail] @ push_tail # [])) ! Suc 0) = 1500 \<and>
   seg_start (snd (process_timerange abutting_track 0 1500 cut_tail
          ([extend_head, extend_tail] @ push_tail # [])) ! 2) = 2500"
proof -
  have h: "(0::int) \<le> 0" "0 < int (length abutting_track)"
    "seg_duration (abutting_track ! nat 0) < 1500"
    by (simp_all add: abutting_track_def plain_segment_def seg_defs)
  have pre: "\<forall>p \<in> set [extend_head, extend_tail].
      fst (process_timerange abutting_track 0 1500 cut_tail [p]) =
        Some (ExtensionFailed 1500 [p])"
    by (simp add: run_defs abutting_track_def plain_segment_def seg_defs)
  have abut: "Suc (nat 0) < length abutting_track"
    "seg_end (abutting_track ! nat 0) = seg_start (abutting_track ! Suc (nat 0))"
    by (simp_all add: abutting_track_def plain_segment_def seg_defs)
  have vals: "seg_start (abutting_track ! 0) = 0" "seg_duration (abutting_track ! 0) = 1000"
    "seg_end (abutting_track ! 0) = 1000" "seg_start (abutting_track ! Suc 0) = 1000"
    "seg_start (abutting_track ! 2) = 2000" "length abutting_track = 3"
    by (simp_all add: abutting_track_def plain_segment_def seg_defs)
  define r where "r = process_timerange abutting_track 0 1500 cut_tail
          ([extend_head, extend_tail] @ push_tail # [])"
  from push_tail_always_succeeds [OF h pre, of "[]"]
  have t: "fst r = None \<and> seg_start (snd r ! 0) = 0 \<and> seg_duration (snd r ! 0) = 1500 \<and>
     (\<forall>j < 3. 0 < j \<longrightarrow> seg_start (snd r ! j) = seg_start (abutting_track ! j) + 500)"
    unfolding r_def [symmetric] by (simp add: Let_def vals)
  then have "seg_start (snd r ! Suc 0) = 1500" "seg_start (snd r ! 2) = 2500"
    by (simp_all add: vals)
  with t show ?thesis
    unfolding r_def [symmetric] using h pre abut by simp
qed


section \<open>Loading and exporting tracks\<close>

lemma track_header_segments:
  assumes "track_header from_name int_of_str m = Inr (tt, nm, tid, ri, segs)"
  shows "m ''segments'' = Some (JList segs) \<and> segs \<noteq> []"
proof -
  from assms obtain ris where seg: "m ''segments'' = Some (JList segs)"
    and ris: "render_indices int_of_str segs = Inr ris" and mx: "py_max ris = Inr ri"
    by (auto simp: track_header_def split: option.splits sum.splits json.splits if_splits)
  have "segs \<noteq> []"
  proof
    assume "segs = []"
    with ris have "ris = []" by simp
    with mx show False by (simp add: py_max_def)
  qed
  with seg show ?thesis by simp
qed

lemma track_header_empty:
  assumes "m ''segments'' = Some (JList [])"
  shows "isl (track_header from_name int_of_str m)"
  using assms by (simp add: track_header_def py_max_def split: option.splits sum.splits)

lemma track_header_empty_cause:
  assumes "m ''segments'' = Some (JList [])" "m ''type'' = Some ty" "from_name ty = Inr tt"
    "m ''name'' = Some nm" "m ''id'' = Some tid"
  shows "track_header from_name int_of_str m = Inl ValueError"
  using assms by (simp add: track_header_def py_max_def)

lemma import_segments_length:
  "import_segments js = Inr ss \<Longrightarrow> length ss = length js"
  by (induction js arbitrary: ss) (auto split: sum.splits)

lemma Imported_track_init_Inr:
  assumes "Imported_track_init from_name int_of_str d = Inr t"
  obtains m segs where "d = JObj m" "track_raw_data t = m" "m ''segments'' = Some (JList segs)"
    "segs \<noteq> []" "import_segments segs = Inr (segments t)"
proof -
  from assms obtain m where d: "d = JObj m"
    by (cases d) (simp_all add: Imported_track_init_def)
  from assms d obtain tt nm tid ri segs ss where
    hd: "track_header from_name int_of_str m = Inr (tt, nm, tid, ri, segs)"
    and ss: "import_segments segs = Inr ss"
    and t: "t = \<lparr>track_type = tt, name = nm, track_id = tid, render_index = ri,
                  track_raw_data = m, segments = ss\<rparr>"
    by (auto simp: Imported_track_init_def split: sum.splits prod.splits)
  from track_header_segments [OF hd] have "m ''segments'' = Some (JList segs)" "segs \<noteq> []"
    by simp_all
  with d ss t that show thesis by simp
qed

lemma Static_track_init_Inr:
  assumes "Static_track_init from_name int_of_str d = Inr s"
  obtains m segs where "d = JObj m" "static_raw_data s = m" "m ''segments'' = Some (JList segs)"
    "segs \<noteq> []"
proof -
  from assms obtain m where d: "d = JObj m"
    by (cases d) (simp_all add: Static_track_init_def)
  from assms d obtain tt nm tid ri segs where
    hd: "track_header from_name int_of_str m = Inr (tt, nm, tid, ri, segs)"
    and s: "s = \<lparr>track_type = tt, name = nm, track_id = tid, render_index = ri,
                  static_raw_data = m\<rparr>"
    by (auto simp: Static_track_init_def split: sum.splits prod.splits)
  from track_header_segments [OF hd] have "m ''segments'' = Some (JList segs)" "segs \<noteq> []"
    by simp_all
  with d s that show thesis by simp
qed

text \<open>
  Claim C10: constructing a \<^verbatim>\<open>Static_track\<close> or an \<^verbatim>\<open>Imported_track\<close> from a descriptor whose
  list of segments is empty fails (with the ValueError of \<^verbatim>\<open>max\<close> on an empty list when the
  reads before it succeed); so a constructed track has at least one segment, and
  \<^verbatim>\<open>start_time\<close> and \<^verbatim>\<open>end_time\<close> never take their empty-list branch on it.
\<close>

theorem constructed_track_has_segments:
  "(m ''segments'' = Some (JList []) \<longrightarrow>
      isl (Imported_track_init from_name int_of_str (JObj m)) \<and>
      isl (Static_track_init from_name int_of_str (JObj m)) \<and>
      (m ''type'' = Some ty \<and> from_name ty = Inr tt \<and> m ''name'' = Some nm \<and>
       m ''id'' = Some tid \<longrightarrow>
         Imported_track_init from_name int_of_str (JObj m) = Inl ValueError \<and>
         Static_track_init from_name int_of_str (JObj m) = Inl ValueError)) \<and>
   (Imported_track_init from_name int_of_str d = Inr t \<longrightarrow>
      length (segments t) \<noteq> 0 \<and>
      start_time t = start (target_timerange (segments t ! 0)) \<and>
      end_time t = Timerange_end (target_timerange (last (segments t)))) \<and>
   (Static_track_init from_name int_of_str d = Inr s \<longrightarrow>
      (\<exists>seg rest. static_raw_data s ''segments'' = Some (JList (seg # rest))))"
proof (intro conjI impI)
  assume e: "m ''segments'' = Some (JList [])"
  have he: "isl (track_header from_name int_of_str m)"
    using e by (rule track_header_empty)
  from he show "isl (Imported_track_init from_name int_of_str (JObj m))"
    by (cases "track_header from_name int_of_str m") (simp_all add: Imported_track_init_def)
  from he show "isl (Static_track_init from_name int_of_str (JObj m))"
    by (cases "track_header from_name int_of_str m") (simp_all add: Static_track_init_def)
  assume "m ''type'' = Some ty \<and> from_name ty = Inr tt \<and> m ''name'' = Some nm \<and>
       m ''id'' = Some tid"
  then have "m ''type'' = Some ty" "from_name ty = Inr tt" "m ''name'' = Some nm"
    "m ''id'' = Some tid" by simp_all
  with e have c: "track_header from_name int_of_str m = Inl ValueError"
    by (rule track_header_empty_cause)
  then show "Imported_track_init from_name int_of_str (JObj m) = Inl ValueError"
    by (simp add: Imported_track_init_def)
  from c show "Static_track_init from_name int_of_str (JObj m) = Inl ValueError"
    by (simp add: Static_track_init_def)
next
  assume a: "Imported_track_init from_name int_of_str d = Inr t"
  from a obtain m segs where "segs \<noteq> []" "import_segments segs = Inr (segments t)"
    by (rule Imported_track_init_Inr)
  then have n: "length (segments t) \<noteq> 0" using import_segments_length by fastforce
  then show "length (segments t) \<noteq> 0" .
  from n show "start_time t = start (target_timerange (segments t ! 0))"
    by (simp add: start_time_def)
  from n show "end_time t = Timerange_end (target_timerange (last (segments t)))"
    by (simp add: end_time_def)
next
  assume "Static_track_init from_name int_of_str d = Inr s"
  then obtain m segs where "static_raw_data s = m" "m ''segments'' = Some (JList segs)" "segs \<noteq> []"
    by (rule Static_track_init_Inr)
  then show "\<exists>seg rest. static_raw_data s ''segments'' = Some (JList (seg # rest))"
    by (cases segs) simp_all
qed


lemma demo_segment_loads: "Imported_segment_init (JObj demo_segment_fields) = Inr demo_segment"
  by (simp add: Imported_segment_init_def assign_attr_with_json_def Timerange_import_json_def
        demo_segment_fields_def demo_segment_def)

lemma demo_header:
  "track_header Inr (\<lambda>_. None) demo_track_fields =
     Inr (JStr ''video'', JStr ''main'', JStr ''t1'', 3, [JObj demo_segment_fields])"
  by (simp add: track_header_def demo_track_fields_def py_max_def py_int_def
        demo_segment_fields_def)

lemma demo_track_loads:
  "Imported_track_init Inr (\<lambda>_. None) (JObj demo_track_fields) = Inr demo_track"
  by (simp add: Imported_track_init_def demo_header demo_segment_loads demo_track_def)

lemma demo_static_track_loads:
  "Static_track_init Inr (\<lambda>_. None) (JObj demo_track_fields) = Inr demo_static_track"
  by (simp add: Static_track_init_def demo_header demo_static_track_def)

text \<open>A descriptor without segments, and one with a single segment.\<close>

theorem constructed_track_has_segments_witness:
  "empty_track_fields ''segments'' = Some (JList []) \<and>
   empty_track_fields ''type'' = Some (JStr ''video'') \<and>
   (Inr (JStr ''video'') :: error + json) = Inr (JStr ''video'') \<and>
   empty_track_fields ''name'' = Some (JStr ''main'') \<and>
   empty_track_fields ''id'' = Some (JStr ''t1'') \<and>
   Imported_track_init Inr (\<lambda>_. None) (JObj empty_track_fields) = Inl ValueError \<and>
   Static_track_init Inr (\<lambda>_. None) (JObj empty_track_fields) = Inl ValueError \<and>
   Imported_track_init Inr (\<lambda>_. None) (JObj demo_track_fields) = Inr demo_track \<and>
   length (segments demo_track) \<noteq> 0 \<and>
   start_time demo_track = 1000 \<and> end_time demo_track = 6000 \<and>
   Static_track_init Inr (\<lambda>_. None) (JObj demo_track_fields) = Inr demo_static_track \<and>
   (\<exists>seg rest. static_raw_data demo_static_track ''segments'' = Some (JList (seg # rest)))"
proof -
  have e: "empty_track_fields ''segments'' = Some (JList [])"
    "empty_track_fields ''type'' = Some (JStr ''video'')"
    "empty_track_fields ''name'' = Some (JStr ''main'')"
    "empty_track_fields ''id'' = Some (JStr ''t1'')"
    by (simp_all add: empty_track_fields_def)
  note t = constructed_track_has_segments [where m = empty_track_fields and from_name = Inr
      and int_of_str = "\<lambda>_. None" and ty = "JStr ''video''" and tt = "JStr ''video''"
      and nm = "JStr ''main''" and tid = "JStr ''t1''" and d = "JObj demo_track_fields"
      and t = demo_track and s = demo_static_track]
  from t e have c1: "Imported_track_init Inr (\<lambda>_. None) (JObj empty_track_fields) = Inl ValueError"
    and c2: "Static_track_init Inr (\<lambda>_. None) (JObj empty_track_fields) = Inl ValueError"
    by blast+
  from t demo_track_loads have c3: "length (segments demo_track) \<noteq> 0"
    and c4: "start_time demo_track = start (target_timerange (segments demo_track ! 0))"
    and c5: "end_time demo_track = Timerange_end (target_timerange (last (segments demo_track)))"
    by blast+
  from t demo_static_track_loads
  have c6: "\<exists>seg rest. static_raw_data demo_static_track ''segments'' = Some (JList (seg # rest))"
    by blast
  have v: "start (target_timerange (segments demo_track ! 0)) = 1000"
    "Timerange_end (target_timerange (last (segments demo_track))) = 6000"
    by (simp_all add: demo_track_def demo_segment_def Timerange_end_def)
  show ?thesis
    using e c1 c2 demo_track_loads c3 c4 c5 demo_static_track_loads c6 v by simp
qed


lemma Timerange_roundtrip:
  assumes "Timerange_import_json j = Inr tr" and "timerange_shaped j"
  shows "Timerange_export_json tr = j"
proof -
  from assms(2) obtain m where j: "j = JObj m" by (cases j) (simp_all add: timerange_shaped_def)
  from assms(2) j obtain s d where dom: "dom m = {''start'', ''duration''}"
    and s: "m ''start'' = Some (JInt s)" and d: "m ''duration'' = Some (JInt d)"
    by (auto simp: timerange_shaped_def split: option.splits json.splits)
  from assms(1) j s d have tr: "tr = \<lparr>start = s, duration = d\<rparr>"
    by (simp add: Timerange_import_json_def)
  have "[''start'' \<mapsto> JInt s, ''duration'' \<mapsto> JInt d] = m"
  proof
    fix x
    show "[''start'' \<mapsto> JInt s, ''duration'' \<mapsto> JInt d] x = m x"
    proof (cases "x \<in> dom m")
      case True
      with dom s d show ?thesis by auto
    next
      case False
      with dom have "x \<noteq> ''start''" "x \<noteq> ''duration''" by auto
      with False show ?thesis by (simp add: domIff)
    qed
  qed
  with tr j show ?thesis by (simp add: Timerange_export_json_def)
qed

lemma Imported_segment_init_Inr:
  assumes "Imported_segment_init j = Inr seg"
  obtains m sj tj where "j = JObj m" "raw_data seg = m"
    "m ''material_id'' = Some (JStr (material_id seg))"
    "m ''source_timerange'' = Some sj" "Timerange_import_json sj = Inr (source_timerange seg)"
    "m ''target_timerange'' = Some tj" "Timerange_import_json tj = Inr (target_timerange seg)"
proof -
  from assms obtain m where j: "j = JObj m"
    by (cases j) (simp_all add: Imported_segment_init_def)
  from assms j obtain mid src tgt where a: "assign_attr_with_json m = Inr (mid, src, tgt)"
    and seg: "seg = \<lparr>raw_data = m, material_id = mid, source_timerange = src,
                      target_timerange = tgt\<rparr>"
    by (auto simp: Imported_segment_init_def split: sum.splits prod.splits)
  from a obtain sj tj where "m ''material_id'' = Some (JStr mid)"
    "m ''source_timerange'' = Some sj" "Timerange_import_json sj = Inr src"
    "m ''target_timerange'' = Some tj" "Timerange_import_json tj = Inr tgt"
    by (auto simp: assign_attr_with_json_def split: option.splits json.splits sum.splits)
  with j seg that show thesis by simp
qed

lemma Imported_segment_roundtrip:
  assumes "Imported_segment_init j = Inr seg" and "segment_shaped j"
  shows "Imported_segment_export_json seg = j"
proof -
  from assms(1) obtain m sj tj where j: "j = JObj m" and raw: "raw_data seg = m"
    and mid: "m ''material_id'' = Some (JStr (material_id seg))"
    and sj: "m ''source_timerange'' = Some sj" "Timerange_import_json sj = Inr (source_timerange seg)"
    and tj: "m ''target_timerange'' = Some tj" "Timerange_import_json tj = Inr (target_timerange seg)"
    by (rule Imported_segment_init_Inr)
  from assms(2) j sj tj have "timerange_shaped sj" "timerange_shaped tj"
    by (simp_all add: segment_shaped_def)
  with sj tj have e: "Timerange_export_json (source_timerange seg) = sj"
    "Timerange_export_json (target_timerange seg) = tj"
    by (simp_all add: Timerange_roundtrip)
  have "m ++ export_attr_to_json seg = m"
  proof
    fix x
    show "(m ++ export_attr_to_json seg) x = m x"
      using mid sj(1) tj(1) by (simp add: export_attr_to_json_def e map_add_def)
  qed
  with j raw show ?thesis by (simp add: Imported_segment_export_json_def)
qed

lemma import_segments_roundtrip:
  "import_segments js = Inr ss \<Longrightarrow> list_all segment_shaped js \<Longrightarrow>
   map Imported_segment_export_json ss = js"
proof (induction js arbitrary: ss)
  case Nil
  then show ?case by simp
next
  case (Cons j js)
  from Cons.prems(1) obtain s rest where s: "Imported_segment_init j = Inr s"
    and rest: "import_segments js = Inr rest" and ss: "ss = s # rest"
    by (auto split: sum.splits)
  from Cons.prems(2) have "segment_shaped j" "list_all segment_shaped js" by simp_all
  with s rest Cons.IH ss show ?case by (simp add: Imported_segment_roundtrip)
qed

text \<open>Whatever the shapes of the typed fields, every other key of a segment is re-emitted.\<close>

lemma export_keeps_opaque_fields:
  assumes "Imported_segment_init (JObj m) = Inr seg"
    and "k \<notin> {''material_id'', ''source_timerange'', ''target_timerange''}"
  shows "(raw_data seg ++ export_attr_to_json seg) k = m k"
proof -
  from assms(1) have "raw_data seg = m"
    by (auto simp: Imported_segment_init_def split: sum.splits prod.splits)
  with assms(2) show ?thesis by (simp add: export_attr_to_json_def map_add_def)
qed

text \<open>
  Claim C9 as stated has every descriptor that loads exported equal to the original. A
  timerange is re-emitted as an object of \<^verbatim>\<open>start\<close> and \<^verbatim>\<open>duration\<close> alone: the descriptor
  whose source timerange holds a third key loads, and its export differs from it.
\<close>

theorem extra_timerange_key_dropped:
  "Imported_track_init Inr (\<lambda>_. None) (JObj extra_key_track_fields) = Inr extra_key_track \<and>
   fst (Imported_track_export_json extra_key_track) \<noteq> JObj extra_key_track_fields"
proof
  have seg: "Imported_segment_init (JObj extra_key_segment_fields) = Inr (segments extra_key_track ! 0)"
    by (simp add: Imported_segment_init_def assign_attr_with_json_def Timerange_import_json_def
          extra_key_segment_fields_def extra_key_track_def)
  have hd: "track_header Inr (\<lambda>_. None) extra_key_track_fields =
     Inr (JStr ''video'', JStr ''main'', JStr ''t1'', 0, [JObj extra_key_segment_fields])"
    by (simp add: track_header_def extra_key_track_fields_def py_max_def py_int_def
          extra_key_segment_fields_def)
  have "segments extra_key_track = [segments extra_key_track ! 0]"
    by (simp add: extra_key_track_def)
  with seg have "import_segments [JObj extra_key_segment_fields] = Inr (segments extra_key_track)"
    by simp
  then show "Imported_track_init Inr (\<lambda>_. None) (JObj extra_key_track_fields) = Inr extra_key_track"
    by (simp add: Imported_track_init_def hd) (simp add: extra_key_track_def)
  show "fst (Imported_track_export_json extra_key_track) \<noteq> JObj extra_key_track_fields"
  proof
    assume "fst (Imported_track_export_json extra_key_track) = JObj extra_key_track_fields"
    then have "(track_raw_data extra_key_track)
        (''segments'' \<mapsto> JList (map Imported_segment_export_json (segments extra_key_track))) =
        extra_key_track_fields"
      by (simp add: Imported_track_export_json_def Let_def)
    then have "((track_raw_data extra_key_track)
        (''segments'' \<mapsto> JList (map Imported_segment_export_json (segments extra_key_track))))
          ''segments'' = extra_key_track_fields ''segments''"
      by (rule arg_cong)
    then have "raw_data (segments extra_key_track ! 0) ++
        export_attr_to_json (segments extra_key_track ! 0) = extra_key_segment_fields"
      by (simp add: extra_key_track_fields_def extra_key_track_def
            Imported_segment_export_json_def)
    then have "(raw_data (segments extra_key_track ! 0) ++
        export_attr_to_json (segments extra_key_track ! 0)) ''source_timerange'' =
        extra_key_segment_fields ''source_timerange''"
      by (rule arg_cong)
    then have "[''start'' \<mapsto> JInt 0, ''duration'' \<mapsto> JInt 5000] =
        [''duration'' \<mapsto> JInt 5000, ''start'' \<mapsto> JInt 0, ''unit'' \<mapsto> JStr ''us'']"
      by (simp add: extra_key_track_def export_attr_to_json_def extra_key_segment_fields_def
            Timerange_export_json_def map_add_def)
    then have "[''start'' \<mapsto> JInt 0, ''duration'' \<mapsto> JInt 5000] ''unit'' =
        [''duration'' \<mapsto> JInt 5000, ''start'' \<mapsto> JInt 0, ''unit'' \<mapsto> JStr ''us''] ''unit''"
      by (rule arg_cong)
    then show False by simp
  qed
qed

text \<open>
  Claim C9, as amended: loading a track descriptor into a \<^verbatim>\<open>Static_track\<close> and exporting it
  with no mutation in between gives a descriptor equal to the original; for an
  \<^verbatim>\<open>Imported_track\<close> it does so when, in every segment descriptor, \<^verbatim>\<open>material_id\<close> is a string
  and \<^verbatim>\<open>source_timerange\<close> and \<^verbatim>\<open>target_timerange\<close> are objects of exactly the keys \<^verbatim>\<open>start\<close>
  and \<^verbatim>\<open>duration\<close>, both integers: then every other field of the track and of each segment is
  reproduced and the typed fields are re-merged at their original values.
\<close>

theorem load_export_roundtrip:
  "(Static_track_init from_name int_of_str d = Inr s \<longrightarrow> Static_track_export_json s = d) \<and>
   (Imported_track_init from_name int_of_str d = Inr t \<and> track_shaped d \<longrightarrow>
      fst (Imported_track_export_json t) = d)"
proof (intro conjI impI)
  assume "Static_track_init from_name int_of_str d = Inr s"
  then obtain m where "d = JObj m" "static_raw_data s = m"
    by (rule Static_track_init_Inr)
  then show "Static_track_export_json s = d" by (simp add: Static_track_export_json_def)
next
  assume a: "Imported_track_init from_name int_of_str d = Inr t \<and> track_shaped d"
  then have "Imported_track_init from_name int_of_str d = Inr t" by simp
  then obtain m segs where d: "d = JObj m" and raw: "track_raw_data t = m"
    and segs: "m ''segments'' = Some (JList segs)"
    and ss: "import_segments segs = Inr (segments t)"
    by (rule Imported_track_init_Inr)
  from a d segs have "list_all segment_shaped segs" by (simp add: track_shaped_def)
  with ss have "map Imported_segment_export_json (segments t) = segs"
    by (rule import_segments_roundtrip)
  moreover from segs have "m(''segments'' \<mapsto> JList segs) = m" by (rule map_upd_triv)
  ultimately show "fst (Imported_track_export_json t) = d"
    using d raw by (simp add: Imported_track_export_json_def Let_def)
qed

text \<open>The descriptor with one segment, which carries fields the model does not type.\<close>

theorem load_export_roundtrip_witness:
  "Static_track_init Inr (\<lambda>_. None) (JObj demo_track_fields) = Inr demo_static_track \<and>
   Static_track_export_json demo_static_track = JObj demo_track_fields \<and>
   Imported_track_init Inr (\<lambda>_. None) (JObj demo_track_fields) = Inr demo_track \<and>
   track_shaped (JObj demo_track_fields) \<and>
   fst (Imported_track_export_json demo_track) = JObj demo_track_fields"
proof -
  have tr: "timerange_shaped (JObj [''duration'' \<mapsto> JInt a, ''start'' \<mapsto> JInt b])" for a b
    by (auto simp: timerange_shaped_def)
  have shaped: "track_shaped (JObj demo_track_fields)"
    by (simp add: track_shaped_def demo_track_fields_def segment_shaped_def
          demo_segment_fields_def tr)
  note t = load_export_roundtrip [where from_name = Inr and int_of_str = "\<lambda>_. None"
      and d = "JObj demo_track_fields" and s = demo_static_track and t = demo_track]
  from t demo_static_track_loads
  have c1: "Static_track_export_json demo_static_track = JObj demo_track_fields" by blast
  from t demo_track_loads shaped
  have c2: "fst (Imported_track_export_json demo_track) = JObj demo_track_fields" by blast
  from demo_static_track_loads c1 demo_track_loads shaped c2 show ?thesis by simp
qed

end
